theory Spec2Isabelle
  imports Complex_Main "HOL-Library.AList"
begin

section \<open>CAMAP dataset construction (camaptools/Dataset.py)\<close>

text \<open>
  A shallow embedding of the dataset builder of CAMAP. Python dictionaries are association
  lists (insertion order is the iteration order of a \<^verbatim>\<open>dict\<close>), Python sets are HOL sets,
  exceptions are values of \<open>py_error\<close> on the left of a sum, and Python numbers are reals:
  the rounding of IEEE doubles is not part of the model.
\<close>

subsection \<open>Exceptions and small Python helpers\<close>

datatype py_error =
    KeyError | ValueError | AssertionError | ZeroDivisionError | IndexError | SystemExit
  | OverflowError

definition ebind :: "py_error + 'a \<Rightarrow> ('a \<Rightarrow> py_error + 'b) \<Rightarrow> py_error + 'b" where
  "ebind m f = (case m of Inl e \<Rightarrow> Inl e | Inr x \<Rightarrow> f x)"

text \<open>\<^verbatim>\<open>d[k]\<close> on a dictionary: a missing key raises KeyError.\<close>

definition getitem :: "('k \<times> 'v) list \<Rightarrow> 'k \<Rightarrow> py_error + 'v" where
  "getitem d k = (case map_of d k of None \<Rightarrow> Inl KeyError | Some v \<Rightarrow> Inr v)"

text \<open>A list comprehension whose element expression may raise: the first failure wins.\<close>

fun emap :: "('a \<Rightarrow> py_error + 'b) \<Rightarrow> 'a list \<Rightarrow> py_error + 'b list" where
  "emap f [] = Inr []"
| "emap f (x # xs) =
     (case f x of Inl e \<Rightarrow> Inl e
      | Inr y \<Rightarrow> (case emap f xs of Inl e \<Rightarrow> Inl e | Inr ys \<Rightarrow> Inr (y # ys)))"

text \<open>A \<^verbatim>\<open>for\<close> loop threading a state through a body that may raise.\<close>

fun efold :: "('a \<Rightarrow> 's \<Rightarrow> py_error + 's) \<Rightarrow> 'a list \<Rightarrow> 's \<Rightarrow> py_error + 's" where
  "efold f [] s = Inr s"
| "efold f (x # xs) s = (case f x s of Inl e \<Rightarrow> Inl e | Inr s' \<Rightarrow> efold f xs s')"

text \<open>\<^verbatim>\<open>min(xs)\<close>: ValueError on the empty list.\<close>

definition py_min :: "real list \<Rightarrow> py_error + real" where
  "py_min xs = (case xs of [] \<Rightarrow> Inl ValueError | y # ys \<Rightarrow> Inr (fold min ys y))"

text \<open>\<^verbatim>\<open>sub in s\<close> on strings: \<open>sub\<close> occurs as a contiguous substring of \<open>s\<close>.\<close>

fun str_contains :: "string \<Rightarrow> string \<Rightarrow> bool" where
  "str_contains sub [] = (sub = [])"
| "str_contains sub (c # cs) = (take (length sub) (c # cs) = sub \<or> str_contains sub cs)"

text \<open>\<^verbatim>\<open>xs[:k]\<close>: \<^verbatim>\<open>None\<close> keeps everything, a negative bound counts from the end.\<close>

definition slice_to :: "int option \<Rightarrow> 'a list \<Rightarrow> 'a list" where
  "slice_to k xs =
     (case k of None \<Rightarrow> xs
      | Some n \<Rightarrow> if 0 \<le> n then take (nat n) xs else take (length xs - nat (- n)) xs)"

text \<open>
  A numpy float: \<^verbatim>\<open>np.log\<close> returns \<^verbatim>\<open>-inf\<close> at zero and \<^verbatim>\<open>nan\<close> below it, where the
  logarithm of HOL has some real value.
\<close>

datatype npfloat = Finite real | PosInf | NegInf | NaN

subsection \<open>The data of a dataset\<close>

type_synonym peptide = string
type_synonym transcript = string
type_synonym allele = string
type_synonym pepkey = "peptide \<times> nat"

text \<open>
  \<open>CAMAPScore\<close> of a context: scoring method \<open>\<rightarrow>\<close> context length \<open>\<rightarrow>\<close> parameter set \<open>\<rightarrow>\<close>
  the scores of the replicates.
\<close>

type_synonym camap_score = "(string \<times> (nat \<times> (string \<times> real list) list) list) list"

record g_cont =
  transcriptID :: "transcript list"
  sequenceContext :: string
  CAMAPScore :: "camap_score option"
  other_items :: "(string \<times> string) list"

record pinfo =
  netmhcpan :: "(allele \<times> (string \<times> real) list) list option"
  genes :: "(string \<times> g_cont list) list"

text \<open>The value stored under a key \<open>(pep, i)\<close>, by the processing mode.\<close>

record created_entry =
  ce_transcriptID :: "transcript list"
  ce_sequenceContext :: string
  ce_other_items :: "(string \<times> string) list"
  expressedTranscripts :: "transcript list"
  expressedTranscriptsExpression :: "real list"
  bindingAffinity :: npfloat
  bindingAffinityMetric :: string

datatype pep_entry = Created created_entry | Evaluated "(string \<times> real list) list"

text \<open>The attributes of \<^verbatim>\<open>Dataset\<close> that the loader reads.\<close>

record dataset =
  alleles :: "allele set"
  detected_peptides :: "peptide set"
  tpm_dct :: "(transcript \<times> real) list"
  context_len :: nat
  max_bs_or_rank :: real
  max_contexts :: "nat option"
  step :: string
  ann_method :: string
  ann_params :: string
  max_replicates :: "int option"
  var :: string

subsection \<open>\<^verbatim>\<open>Dataset.load_peptides_options\<close>\<close>

definition load_peptides_options ::
  "dataset \<Rightarrow> real \<Rightarrow> string \<Rightarrow> nat option \<Rightarrow> string \<Rightarrow> string \<Rightarrow> string \<Rightarrow> int option
     \<Rightarrow> py_error + dataset" where
  "load_peptides_options self max_bs_or_rank' var' max_contexts' step' ann_method' ann_params'
       max_replicates' =
     (let self = self\<lparr>max_bs_or_rank := max_bs_or_rank', max_contexts := max_contexts',
                      step := step', ann_method := ann_method', ann_params := ann_params',
                      max_replicates := max_replicates'\<rparr>
      in if max_bs_or_rank self < 100 \<and> var' \<noteq> ''Rank'' \<and> var' \<noteq> ''Rank_NP''
           then Inr (self\<lparr>var := ''Rank''\<rparr>)
         else if max_bs_or_rank self \<ge> 100 \<and> var' \<noteq> ''nM''
           then Inr (self\<lparr>var := ''nM''\<rparr>)
         else if var' \<in> set [''nM'', ''Rank'', ''Rank_NP'']
           then Inr (self\<lparr>var := var'\<rparr>)
         else Inl AssertionError)"

subsection \<open>\<^verbatim>\<open>Dataset._load_peptides\<close>: one shard\<close>

text \<open>The six dictionaries a shard returns; \<open>peptides0\<close> is the nonsource bucket.\<close>

record shard =
  peptides0 :: "(pepkey \<times> pep_entry) list"
  peptides1 :: "(pepkey \<times> pep_entry) list"
  tr_is_source :: "(transcript \<times> bool) list"
  peptr :: "(peptide \<times> transcript set) list"
  pepexpr :: "(pepkey \<times> real list \<times> transcript list) list"
  pepbs :: "(peptide \<times> npfloat) list"

definition empty_shard :: "dataset \<Rightarrow> shard" where
  "empty_shard self =
     \<lparr>peptides0 = [], peptides1 = [], tr_is_source = map (\<lambda>(k, v). (k, False)) (tpm_dct self),
      peptr = [], pepexpr = [], pepbs = []\<rparr>"

text \<open>Lines 182-183: the scores of the accepted alleles, and their minimum.\<close>

definition accepted_scores ::
  "dataset \<Rightarrow> (allele \<times> (string \<times> real) list) list \<Rightarrow> (allele \<times> (string \<times> real) list) list" where
  "accepted_scores self mhc_scores = filter (\<lambda>(al, sc). al \<in> alleles self) mhc_scores"

definition bs_or_rank :: "dataset \<Rightarrow> (allele \<times> (string \<times> real) list) list \<Rightarrow> py_error + real" where
  "bs_or_rank self mhc_scores =
     ebind (emap (\<lambda>(al, sc). getitem sc (var self)) (accepted_scores self mhc_scores)) py_min"

text \<open>Line 203: the stored binding score.\<close>

definition np_log :: "real \<Rightarrow> npfloat" where
  "np_log x = (if 0 < x then Finite (ln x) else if x = 0 then NegInf else NaN)"

definition binding_score :: "string \<Rightarrow> real \<Rightarrow> npfloat" where
  "binding_score v bs =
     (if v = ''nM''
      then (case np_log bs of
              Finite l \<Rightarrow> Finite (1 - l / ln 50000)
            | NegInf \<Rightarrow> PosInf
            | PosInf \<Rightarrow> NegInf
            | NaN \<Rightarrow> NaN)
      else Finite bs)"

text \<open>
  Lines 185-200: the contexts with an expressed transcript. The state is
  \<open>(contexts, transcripts, tr_set, tr_is_source)\<close>; the keys of \<open>tr_is_source\<close> are
  those of \<open>tpm_dct\<close>, so the entry of an expressed transcript is there.
\<close>

type_synonym ctx_state =
  "g_cont list \<times> transcript list list \<times> transcript set \<times> (transcript \<times> bool) list"

definition visit_context :: "dataset \<Rightarrow> peptide \<Rightarrow> g_cont \<Rightarrow> ctx_state \<Rightarrow> ctx_state" where
  "visit_context self pep g = (\<lambda>(contexts, transcripts, tr_set, tis).
     (let tr = filter (\<lambda>t. t \<in> fst ` set (tpm_dct self)) (transcriptID g)
      in if tr \<noteq> []
         then (contexts @ [g], transcripts @ [tr], tr_set \<union> set tr,
               fold (\<lambda>t. AList.map_entry t (\<lambda>b. b \<or> pep \<in> detected_peptides self)) tr tis)
         else (contexts, transcripts, tr_set, tis)))"

definition collect_contexts ::
  "dataset \<Rightarrow> peptide \<Rightarrow> (string \<times> g_cont list) list \<Rightarrow> (transcript \<times> bool) list \<Rightarrow> ctx_state" where
  "collect_contexts self pep gene_entries tis =
     fold (\<lambda>(gname, gs) st. fold (visit_context self pep) gs st) gene_entries ([], [], {}, tis)"

text \<open>Lines 215-218: the scores of one context in \<^verbatim>\<open>evaluateDS\<close> mode.\<close>

definition method_of_key :: "string \<Rightarrow> string" where
  "method_of_key k = takeWhile (\<lambda>c. c \<noteq> CHR ''_'') k"

definition evaluated_scores :: "dataset \<Rightarrow> g_cont \<Rightarrow> py_error + (string \<times> real list) list" where
  "evaluated_scores self g =
     (case CAMAPScore g of
        None \<Rightarrow> Inl KeyError
      | Some dct \<Rightarrow>
          emap (\<lambda>(k, by_context).
                  ebind (getitem by_context (context_len self)) (\<lambda>by_params.
                  ebind (getitem by_params (ann_params self)) (\<lambda>scores.
                  Inr (k, slice_to (max_replicates self) scores))))
               (filter (\<lambda>(k, v). method_of_key k = ann_method self) dct))"

text \<open>\<^verbatim>\<open>peptides[ix]\<close>: the bucket of the detected peptides is the one of index 1.\<close>

definition bucket :: "bool \<Rightarrow> shard \<Rightarrow> (pepkey \<times> pep_entry) list" where
  "bucket ix st = (if ix then peptides1 st else peptides0 st)"

text \<open>Lines 204-222: one retained context.\<close>

definition put_entry :: "bool \<Rightarrow> pepkey \<Rightarrow> pep_entry \<Rightarrow> shard \<Rightarrow> shard" where
  "put_entry ix k e st =
     (if ix then st\<lparr>peptides1 := AList.update k e (peptides1 st)\<rparr>
      else st\<lparr>peptides0 := AList.update k e (peptides0 st)\<rparr>)"

definition store_context ::
  "dataset \<Rightarrow> peptide \<Rightarrow> npfloat \<Rightarrow> nat \<times> g_cont \<times> transcript list \<Rightarrow> shard \<Rightarrow> py_error + shard" where
  "store_context self pep bsv = (\<lambda>(i, g, tr) st.
     ebind (emap (getitem (tpm_dct self)) tr) (\<lambda>exp.
       if \<not> str_contains ''!GA'' (sequenceContext g)
       then (let st = st\<lparr>pepexpr := AList.update (pep, i) (exp, tr) (pepexpr st)\<rparr>;
                 ix = (pep \<in> detected_peptides self)
             in if step self = ''createDS''
                then Inr (put_entry ix (pep, i)
                       (Created \<lparr>ce_transcriptID = transcriptID g,
                                 ce_sequenceContext = sequenceContext g,
                                 ce_other_items = other_items g,
                                 expressedTranscripts = tr,
                                 expressedTranscriptsExpression = exp,
                                 bindingAffinity = bsv,
                                 bindingAffinityMetric = var self\<rparr>) st)
                else if step self = ''evaluateDS''
                then ebind (evaluated_scores self g) (\<lambda>dct.
                       Inr (put_entry ix (pep, i) (Evaluated dct) st))
                else Inl SystemExit)
       else Inr st))"

text \<open>Line 201: \<^verbatim>\<open>len(contexts) and len(contexts) <= self.max_contexts\<close>.\<close>

definition contexts_ok :: "dataset \<Rightarrow> g_cont list \<Rightarrow> bool" where
  "contexts_ok self contexts =
     (contexts \<noteq> [] \<and> (case max_contexts self of None \<Rightarrow> True | Some m \<Rightarrow> length contexts \<le> m))"

text \<open>The body of the loop over the peptides of the shard (lines 171-222).\<close>

definition load_one :: "dataset \<Rightarrow> peptide \<times> pinfo \<Rightarrow> shard \<Rightarrow> py_error + shard" where
  "load_one self = (\<lambda>(pep, info) st.
     (case netmhcpan info of
        None \<Rightarrow> if CHR ''U'' \<notin> set pep then Inl KeyError else Inr st
      | Some mhc_scores \<Rightarrow>
          ebind (bs_or_rank self mhc_scores) (\<lambda>bs.
            if bs < max_bs_or_rank self
            then (case collect_contexts self pep (genes info) (tr_is_source st) of
                    (contexts, transcripts, tr_set, tis) \<Rightarrow>
                      (let st = st\<lparr>tr_is_source := tis\<rparr>
                       in if contexts_ok self contexts
                          then (let bsv = binding_score (var self) bs;
                                    st = st\<lparr>peptr := AList.update pep tr_set (peptr st),
                                            pepbs := AList.update pep bsv (pepbs st)\<rparr>
                                in efold (store_context self pep bsv)
                                     (zip [0..<length contexts] (zip contexts transcripts)) st)
                          else Inr st))
            else Inr st)))"

definition u_load_peptides :: "dataset \<Rightarrow> (peptide \<times> pinfo) list \<Rightarrow> py_error + shard" where
  "u_load_peptides self pdct = efold (load_one self) pdct (empty_shard self)"

subsection \<open>\<^verbatim>\<open>Dataset.load_peptides\<close>: merging the shards\<close>

text \<open>\<^verbatim>\<open>d.update(other)\<close>: a key already there keeps its place, a new one goes to the end.\<close>

definition dict_update :: "('k \<times> 'v) list \<Rightarrow> ('k \<times> 'v) list \<Rightarrow> ('k \<times> 'v) list" where
  "dict_update d other = fold (\<lambda>(k, v). AList.update k v) other d"

text \<open>\<^verbatim>\<open>del d[k]\<close>: a missing key raises KeyError.\<close>

definition delitem :: "('k \<times> 'v) list \<Rightarrow> 'k \<Rightarrow> py_error + ('k \<times> 'v) list" where
  "delitem d k = (if k \<in> fst ` set d then Inr (AList.delete k d) else Inl KeyError)"

text \<open>Lines 138-139: the source flags of a shard are or-ed into the merged ones.\<close>

definition or_flags ::
  "(transcript \<times> bool) list \<Rightarrow> (transcript \<times> bool) list \<Rightarrow> py_error + (transcript \<times> bool) list" where
  "or_flags tdict source_tr_dct =
     efold (\<lambda>(key, val) d. ebind (getitem d key) (\<lambda>old. Inr (AList.update key (old \<or> val) d)))
       tdict source_tr_dct"

text \<open>
  Lines 132-139, one shard. The merged dictionaries are kept in a \<open>shard\<close> record:
  \<open>peptides0\<close> is \<^verbatim>\<open>pepdict_nonsource\<close>, \<open>peptides1\<close> is \<^verbatim>\<open>pepdict_source\<close> and
  \<open>tr_is_source\<close> is \<^verbatim>\<open>source_tr_dct\<close>.
\<close>

definition merge_shard :: "shard \<Rightarrow> shard \<Rightarrow> py_error + shard" where
  "merge_shard sh acc =
     ebind (or_flags (tr_is_source sh) (tr_is_source acc)) (\<lambda>flags.
       Inr \<lparr>peptides0 = dict_update (peptides0 acc) (peptides0 sh),
            peptides1 = dict_update (peptides1 acc) (peptides1 sh),
            tr_is_source = flags,
            peptr = dict_update (peptr acc) (peptr sh),
            pepexpr = dict_update (pepexpr acc) (pepexpr sh),
            pepbs = dict_update (pepbs acc) (pepbs sh)\<rparr>)"

text \<open>
  Lines 144-152: the nonsource entries of a peptide with a source transcript are deleted,
  with their expression entries; then the transcript sets of the removed peptides. The
  loop state is \<open>(pepdict_nonsource, pepexpr, rem)\<close>.
\<close>

type_synonym rem_state =
  "(pepkey \<times> pep_entry) list \<times> (pepkey \<times> real list \<times> transcript list) list \<times> peptide set"

definition remove_step ::
  "(peptide \<times> transcript set) list \<Rightarrow> transcript set \<Rightarrow> pepkey \<Rightarrow> rem_state
     \<Rightarrow> py_error + rem_state" where
  "remove_step ptr src pep = (\<lambda>(ns, pe, rem).
     ebind (getitem ptr (fst pep)) (\<lambda>trs.
       if trs \<inter> src \<noteq> {}
       then ebind (delitem ns pep) (\<lambda>ns'.
            ebind (delitem pe pep) (\<lambda>pe'.
            Inr (ns', pe', insert (fst pep) rem)))
       else Inr (ns, pe, rem)))"

definition remove_source_peptides :: "transcript set \<Rightarrow> shard \<Rightarrow> py_error + shard" where
  "remove_source_peptides src m =
     ebind (efold (remove_step (peptr m) src) (map fst (peptides0 m))
              (peptides0 m, pepexpr m, {}))
       (\<lambda>(ns, pe, rem).
          Inr (m\<lparr>peptides0 := ns, pepexpr := pe,
                 peptr := filter (\<lambda>(p, trs). p \<notin> rem) (peptr m)\<rparr>))"

text \<open>
  \<^verbatim>\<open>load_peptides\<close> on the contents of the shard files, with the options already set. The
  result is \<^verbatim>\<open>self.source_transcripts\<close> and the dictionaries at the end of the call:
  \<^verbatim>\<open>self.peptides\<close> (\<open>peptides0\<close>, \<open>peptides1\<close>), \<^verbatim>\<open>self.pepexpr\<close>, \<^verbatim>\<open>self.pepbs\<close>, and the
  local \<^verbatim>\<open>peptr\<close> and \<^verbatim>\<open>source_tr_dct\<close>.
\<close>

definition source_set :: "(transcript \<times> bool) list \<Rightarrow> transcript set" where
  "source_set source_tr_dct = fst ` set (filter snd source_tr_dct)"

definition load_peptides ::
  "dataset \<Rightarrow> (peptide \<times> pinfo) list list \<Rightarrow> py_error + transcript set \<times> shard" where
  "load_peptides self pdcts =
     ebind (emap (u_load_peptides self) pdcts) (\<lambda>out_dcts.
     ebind (efold merge_shard out_dcts (empty_shard self)) (\<lambda>m.
       (let source_transcripts = source_set (tr_is_source m)
        in ebind (remove_source_peptides source_transcripts m) (\<lambda>m'.
             Inr (source_transcripts, m')))))"

subsection \<open>\<^verbatim>\<open>TrainingDataset.split_dataset\<close>: the resampling weights\<close>

text \<open>
  The attributes that \<^verbatim>\<open>split_dataset\<close> reads: the keys of \<^verbatim>\<open>self.peptides[0]\<close> and
  \<^verbatim>\<open>self.peptides[1]\<close> in their order, \<^verbatim>\<open>self.pepexpr\<close> and \<^verbatim>\<open>self.pepbs\<close>, whose scores
  are finite here.
\<close>

record training_dataset =
  td_peptides0 :: "pepkey list"
  td_peptides1 :: "pepkey list"
  td_pepexpr :: "(pepkey \<times> real list \<times> transcript list) list"
  td_pepbs :: "(peptide \<times> real) list"

text \<open>\<^verbatim>\<open>np.mean\<close> of a list and \<^verbatim>\<open>np.log2\<close>; the mean of no value is \<^verbatim>\<open>nan\<close>.\<close>

definition np_mean :: "real list \<Rightarrow> npfloat" where
  "np_mean xs = (if xs = [] then NaN else Finite (sum_list xs / real (length xs)))"

definition np_log2 :: "npfloat \<Rightarrow> npfloat" where
  "np_log2 a =
     (case a of
        Finite x \<Rightarrow> if 0 < x then Finite (log 2 x) else if x = 0 then NegInf else NaN
      | PosInf \<Rightarrow> PosInf
      | NegInf \<Rightarrow> NaN
      | NaN \<Rightarrow> NaN)"

text \<open>The comparisons \<^verbatim>\<open><\<close> and \<^verbatim>\<open>>=\<close> of floats: both are false at \<^verbatim>\<open>nan\<close>.\<close>

fun np_lt :: "npfloat \<Rightarrow> npfloat \<Rightarrow> bool" where
  "np_lt (Finite x) (Finite y) = (x < y)"
| "np_lt (Finite x) PosInf = True"
| "np_lt NegInf (Finite y) = True"
| "np_lt NegInf PosInf = True"
| "np_lt _ _ = False"

fun np_ge :: "npfloat \<Rightarrow> npfloat \<Rightarrow> bool" where
  "np_ge (Finite x) (Finite y) = (y \<le> x)"
| "np_ge (Finite x) NegInf = True"
| "np_ge PosInf (Finite y) = True"
| "np_ge PosInf NegInf = True"
| "np_ge PosInf PosInf = True"
| "np_ge NegInf NegInf = True"
| "np_ge _ _ = False"

text \<open>\<^verbatim>\<open>math.ceil\<close>: OverflowError at an infinity, ValueError at \<^verbatim>\<open>nan\<close>.\<close>

definition py_ceil :: "npfloat \<Rightarrow> py_error + int" where
  "py_ceil a =
     (case a of Finite x \<Rightarrow> Inr \<lceil>x\<rceil> | PosInf \<Rightarrow> Inl OverflowError
      | NegInf \<Rightarrow> Inl OverflowError | NaN \<Rightarrow> Inl ValueError)"

text \<open>\<^verbatim>\<open>xs[i]\<close> on a list, for an index that is not negative.\<close>

definition list_get :: "'a list \<Rightarrow> nat \<Rightarrow> py_error + 'a" where
  "list_get xs i = (if i < length xs then Inr (xs ! i) else Inl IndexError)"

text \<open>Lines 261-263: \<^verbatim>\<open>start\<close>, \<^verbatim>\<open>end\<close> and the list \<^verbatim>\<open>l\<close> of the edges.\<close>

definition start :: int where
  "start = - 10"

definition end_edge :: int where
  "end_edge = 10"

definition edges :: "npfloat list" where
  "edges = [NegInf] @ map (\<lambda>k. Finite (of_int k)) [start..end_edge - 1] @ [PosInf]"

text \<open>
  Lines 264-269: the loop appends the pair of an edge and the next one, and is left by the
  IndexError of the first index that has no next one; the pairs appended so far remain.
\<close>

fun append_bins ::
  "npfloat list \<Rightarrow> nat list \<Rightarrow> (npfloat \<times> npfloat) list \<Rightarrow> (npfloat \<times> npfloat) list" where
  "append_bins l [] bins = bins"
| "append_bins l (x # xs) bins =
     (if x < length l \<and> x + 1 < length l then append_bins l xs (bins @ [(l ! x, l ! (x + 1))])
      else bins)"

definition bins :: "(npfloat \<times> npfloat) list" where
  "bins = append_bins edges [0..<length edges] []"

text \<open>Line 270.\<close>

definition numtoix :: "(int \<times> nat) list" where
  "numtoix = zip [start..end_edge] [0..<length [start..end_edge]]"

text \<open>Line 271: the fraction of the positive values in each bin.\<close>

definition in_bin :: "npfloat \<Rightarrow> npfloat \<times> npfloat \<Rightarrow> bool" where
  "in_bin s = (\<lambda>(i, j). np_ge s i \<and> np_lt s j)"

definition weights :: "npfloat list \<Rightarrow> py_error + real list" where
  "weights s_exp =
     emap (\<lambda>b. if length s_exp = 0 then Inl ZeroDivisionError
               else Inr (real (length (filter (\<lambda>s. in_bin s b) s_exp)) / real (length s_exp)))
       bins"

text \<open>Lines 272 and 277: the index \<^verbatim>\<open>numtoix[max(start, min(math.ceil(x), end))]\<close>.\<close>

definition bin_index :: "npfloat \<Rightarrow> py_error + nat" where
  "bin_index x = ebind (py_ceil x) (\<lambda>c. getitem numtoix (max start (min c end_edge)))"

definition getbin :: "npfloat \<Rightarrow> py_error + npfloat \<times> npfloat" where
  "getbin x = ebind (bin_index x) (list_get bins)"

text \<open>
  Line 275: \<^verbatim>\<open>groupby(...).count().to_dict()\<close>, the number of occurrences of each value
  that occurs. Only lookups are made in the result, so the order of its keys is left as met.
\<close>

definition count_values :: "'a list \<Rightarrow> ('a \<times> nat) list" where
  "count_values xs =
     fold (\<lambda>b d. case map_of d b of None \<Rightarrow> d @ [(b, 1)] | Some n \<Rightarrow> AList.update b (n + 1) d)
       xs []"

text \<open>Line 276: \<^verbatim>\<open>[w/ns_norm[b] if w else 0 for b, w in zip(bins, weights)]\<close>.\<close>

definition new_weights ::
  "real list \<Rightarrow> ((npfloat \<times> npfloat) \<times> nat) list \<Rightarrow> py_error + real list" where
  "new_weights ws ns_norm =
     emap (\<lambda>(b, w). if w \<noteq> 0 then ebind (getitem ns_norm b) (\<lambda>n. Inr (w / real n)) else Inr 0)
       (zip bins ws)"

definition getnewweight :: "real list \<Rightarrow> npfloat \<Rightarrow> py_error + real" where
  "getnewweight nw x = ebind (bin_index x) (list_get nw)"

text \<open>\<^verbatim>\<open>max(xs)\<close>: ValueError on the empty list.\<close>

definition py_max :: "real list \<Rightarrow> py_error + real" where
  "py_max xs = (case xs of [] \<Rightarrow> Inl ValueError | y # ys \<Rightarrow> Inr (fold max ys y))"

text \<open>
  Lines 258-259: \<^verbatim>\<open>x/max_val*30-15\<close> on numpy floats, where a division by zero is no
  error but an infinity, or \<^verbatim>\<open>nan\<close> for \<^verbatim>\<open>0/0\<close>.
\<close>

definition rescale :: "real \<Rightarrow> real \<Rightarrow> npfloat" where
  "rescale max_val x =
     (if max_val \<noteq> 0 then Finite (x / max_val * 30 - 15)
      else if 0 < x then PosInf else if x < 0 then NegInf else NaN)"

text \<open>Lines 251-259: the values \<^verbatim>\<open>(ns_exp, s_exp)\<close> of the two classes.\<close>

definition class_values ::
  "training_dataset \<Rightarrow> bool \<Rightarrow> py_error + npfloat list \<times> npfloat list" where
  "class_values self same_tpm =
     (if same_tpm
      then ebind (emap (\<lambda>pep. ebind (getitem (td_pepexpr self) pep)
                                 (\<lambda>(exp, tr). Inr (np_log2 (np_mean exp))))
                    (td_peptides0 self)) (\<lambda>ns_exp.
           ebind (emap (\<lambda>pep. ebind (getitem (td_pepexpr self) pep)
                                 (\<lambda>(exp, tr). Inr (np_log2 (np_mean exp))))
                    (td_peptides1 self)) (\<lambda>s_exp. Inr (ns_exp, s_exp)))
      else ebind (emap (\<lambda>pep. getitem (td_pepbs self) (fst pep)) (td_peptides0 self)) (\<lambda>ns_exp.
           ebind (emap (\<lambda>pep. getitem (td_pepbs self) (fst pep)) (td_peptides1 self)) (\<lambda>s_exp.
           ebind (py_max ns_exp) (\<lambda>m0.
           ebind (py_max s_exp) (\<lambda>m1.
             (let max_val = max m0 m1
              in Inr (map (rescale max_val) ns_exp, map (rescale max_val) s_exp)))))))"

text \<open>
  Lines 241 and 251-278, for a call in resampling mode (one of the two flags is set and the
  ratio is given): the result is \<^verbatim>\<open>(weights, new_weights, ns_weights)\<close>.
\<close>

definition resampling_weights ::
  "training_dataset \<Rightarrow> bool \<Rightarrow> bool \<Rightarrow> py_error + real list \<times> real list \<times> real list" where
  "resampling_weights self same_tpm same_bs =
     (if same_tpm \<and> same_bs then Inl AssertionError
      else ebind (class_values self same_tpm) (\<lambda>(ns_exp, s_exp).
           ebind (weights s_exp) (\<lambda>ws.
           ebind (emap getbin ns_exp) (\<lambda>ns_bins.
           ebind (new_weights ws (count_values ns_bins)) (\<lambda>nw.
           ebind (emap (getnewweight nw) ns_exp) (\<lambda>ns_weights.
             Inr (ws, nw, ns_weights)))))))"

subsection \<open>Example inputs\<close>

text \<open>
  A mouse cell line with one accepted allele, one detected peptide and two expressed
  transcripts; the binding threshold is 1250 nM.
\<close>

definition example_dataset :: dataset where
  "example_dataset =
     \<lparr>alleles = {''H-2-Kb''}, detected_peptides = {''SIINFEKL''},
      tpm_dct = [(''T1'', 8), (''T2'', 2)], context_len = 162,
      max_bs_or_rank = 1250, max_contexts = Some 3, step = ''createDS'',
      ann_method = ''Adam'', ann_params = ''e500pep9t5'', max_replicates = None,
      var = ''nM''\<rparr>"

text \<open>
  The record of a peptide with one context: \<open>score\<close> nM on the accepted allele, a stronger
  score on an allele that is not accepted.
\<close>

definition example_pinfo :: "real \<Rightarrow> transcript list \<Rightarrow> pinfo" where
  "example_pinfo score ts =
     \<lparr>netmhcpan = Some [(''H-2-Kb'', [(''nM'', score), (''Rank'', 1 / 2)]),
                        (''H-2-Db'', [(''nM'', 3), (''Rank'', 1 / 4)])],
      genes = [(''G1'', [\<lparr>transcriptID = ts, sequenceContext = ''ATGGCC'',
                           CAMAPScore = None, other_items = []\<rparr>])]\<rparr>"

text \<open>One shard with two peptides, the detected one at 500 nM.\<close>

definition example_pdct :: "(peptide \<times> pinfo) list" where
  "example_pdct = [(''SIINFEKL'', example_pinfo 500 [''T1'']),
                   (''AAAAAAAA'', example_pinfo 1000 [''T2'', ''T9''])]"

text \<open>A second shard: a peptide that is not detected, on the transcript of the detected one.\<close>

definition example_pdct2 :: "(peptide \<times> pinfo) list" where
  "example_pdct2 = [(''CCCCCCCC'', example_pinfo 700 [''T1''])]"

text \<open>
  A training dataset with one detected peptide and one other peptide, whose scores under
  \<^verbatim>\<open>nM\<close> are 1/2 and 1.
\<close>

definition example_training :: training_dataset where
  "example_training =
     \<lparr>td_peptides0 = [(''AAAAAAAA'', 0)], td_peptides1 = [(''SIINFEKL'', 0)],
      td_pepexpr = [((''SIINFEKL'', 0), [8], [''T1'']), ((''AAAAAAAA'', 0), [2], [''T2''])],
      td_pepbs = [(''SIINFEKL'', 1 / 2), (''AAAAAAAA'', 1)]\<rparr>"

subsection \<open>Auxiliary relations of the proofs\<close>

text \<open>Two states of the context loop that differ in the source flags only.\<close>

definition same_ctx :: "ctx_state \<Rightarrow> ctx_state \<Rightarrow> bool" where
  "same_ctx a b \<longleftrightarrow>
     fst a = fst b \<and> fst (snd a) = fst (snd b) \<and> fst (snd (snd a)) = fst (snd (snd b))"

text \<open>A state of the context loop with as many transcript lists as contexts.\<close>

definition same_len :: "ctx_state \<Rightarrow> bool" where
  "same_len a \<longleftrightarrow> length (fst (snd a)) = length (fst a)"

text \<open>A key of the nonsource bucket that the filter keeps.\<close>

definition kept_key :: "(peptide \<times> transcript set) list \<Rightarrow> transcript set \<Rightarrow> pepkey \<Rightarrow> bool" where
  "kept_key ptr src k \<longleftrightarrow> (\<exists>trs. map_of ptr (fst k) = Some trs \<and> trs \<inter> src = {})"


section \<open>Properties\<close>

subsection \<open>The effective metric\<close>

text \<open>
  C10. Every call of \<^verbatim>\<open>load_peptides_options\<close> returns, and the metric it stores may differ
  from the requested one: below a threshold of 100 a metric other than \<^verbatim>\<open>Rank\<close> and
  \<^verbatim>\<open>Rank_NP\<close> becomes \<^verbatim>\<open>Rank\<close>; from 100 on a metric other than \<^verbatim>\<open>nM\<close> (so also
  \<^verbatim>\<open>Rank_NP\<close>) becomes \<^verbatim>\<open>nM\<close>; only when neither override fires is the requested metric
  checked against the three names and kept.
\<close>

theorem load_peptides_options_effective_metric:
  "\<exists>self'. load_peptides_options self m v mc st am ap mr = Inr self'
     \<and> max_bs_or_rank self' = m
     \<and> (m < 100 \<and> v \<noteq> ''Rank'' \<and> v \<noteq> ''Rank_NP'' \<longrightarrow> var self' = ''Rank'')
     \<and> (\<not> (m < 100 \<and> v \<noteq> ''Rank'' \<and> v \<noteq> ''Rank_NP'') \<and> m \<ge> 100 \<and> v \<noteq> ''nM''
          \<longrightarrow> var self' = ''nM'')
     \<and> (\<not> (m < 100 \<and> v \<noteq> ''Rank'' \<and> v \<noteq> ''Rank_NP'') \<and> \<not> (m \<ge> 100 \<and> v \<noteq> ''nM'')
          \<longrightarrow> var self' = v \<and> v \<in> {''nM'', ''Rank'', ''Rank_NP''})"
  by (auto simp: load_peptides_options_def Let_def)

theorem load_peptides_options_effective_metric_witness:
  "(\<exists>self'. load_peptides_options example_dataset 50 ''nM'' (Some 3) ''createDS'' ''Adam''
               ''e500pep9t5'' None = Inr self' \<and> var self' = ''Rank'')
   \<and> (\<exists>self'. load_peptides_options example_dataset 1250 ''Rank_NP'' (Some 3) ''createDS''
               ''Adam'' ''e500pep9t5'' None = Inr self' \<and> var self' = ''nM'')
   \<and> (\<exists>self'. load_peptides_options example_dataset 2 ''Rank_NP'' (Some 3) ''createDS''
               ''Adam'' ''e500pep9t5'' None = Inr self' \<and> var self' = ''Rank_NP'')"
  using load_peptides_options_effective_metric
          [of example_dataset 50 "''nM''" "Some 3" "''createDS''" "''Adam''" "''e500pep9t5''" None]
        load_peptides_options_effective_metric
          [of example_dataset 1250 "''Rank_NP''" "Some 3" "''createDS''" "''Adam''"
              "''e500pep9t5''" None]
        load_peptides_options_effective_metric
          [of example_dataset 2 "''Rank_NP''" "Some 3" "''createDS''" "''Adam''" "''e500pep9t5''"
              None]
  by auto

subsection \<open>The loader, peptide by peptide\<close>

lemma ebind_Inr_iff: "ebind m f = Inr y \<longleftrightarrow> (\<exists>x. m = Inr x \<and> f x = Inr y)"
  by (cases m) (auto simp: ebind_def)

lemma put_entry_fields [simp]:
  "pepbs (put_entry ix k e st) = pepbs st"
  "peptr (put_entry ix k e st) = peptr st"
  "pepexpr (put_entry ix k e st) = pepexpr st"
  "tr_is_source (put_entry ix k e st) = tr_is_source st"
  by (simp_all add: put_entry_def)

lemma store_context_keeps:
  assumes "store_context self pep bsv x st = Inr st'"
  shows "pepbs st' = pepbs st \<and> peptr st' = peptr st \<and> tr_is_source st' = tr_is_source st"
  using assms
  by (cases x) (auto simp: store_context_def ebind_Inr_iff Let_def split: if_splits)

lemma efold_store_context_keeps:
  "efold (store_context self pep bsv) xs st = Inr st'
    \<Longrightarrow> pepbs st' = pepbs st \<and> peptr st' = peptr st \<and> tr_is_source st' = tr_is_source st"
proof (induction xs arbitrary: st)
  case Nil
  then show ?case by simp
next
  case (Cons x xs)
  from Cons.prems obtain s1 where s1: "store_context self pep bsv x st = Inr s1"
    and rest: "efold (store_context self pep bsv) xs s1 = Inr st'"
    by (auto split: sum.splits)
  from store_context_keeps [OF s1] Cons.IH [OF rest] show ?case by simp
qed

lemma load_one_pepbs:
  assumes "load_one self (pep, info) st = Inr st'"
  shows "(pepbs st' = pepbs st \<and> peptr st' = peptr st) \<or>
         (\<exists>mhc bs. netmhcpan info = Some mhc \<and> bs_or_rank self mhc = Inr bs
            \<and> bs < max_bs_or_rank self
            \<and> pepbs st' = AList.update pep (binding_score (var self) bs) (pepbs st))"
  using assms
  apply (auto simp: load_one_def ebind_Inr_iff Let_def split: option.splits if_splits prod.splits
      dest!: efold_store_context_keeps)
  done

lemma efold_load_one_pepbs:
  assumes "efold (load_one self) pdct st = Inr out" "map_of (pepbs out) q = Some v"
  shows "map_of (pepbs st) q = Some v \<or>
         (\<exists>info mhc bs. (q, info) \<in> set pdct \<and> netmhcpan info = Some mhc
            \<and> bs_or_rank self mhc = Inr bs \<and> bs < max_bs_or_rank self
            \<and> v = binding_score (var self) bs)"
  using assms
proof (induction pdct arbitrary: st)
  case Nil
  then show ?case by simp
next
  case (Cons x pdct)
  obtain pep info where x: "x = (pep, info)" by (cases x)
  from Cons.prems obtain s1 where s1: "load_one self (pep, info) st = Inr s1"
    and rest: "efold (load_one self) pdct s1 = Inr out"
    by (auto simp: x split: sum.splits)
  from Cons.IH [OF rest Cons.prems(2)] show ?case
  proof
    assume a: "map_of (pepbs s1) q = Some v"
    from load_one_pepbs [OF s1] show ?thesis
    proof
      assume "pepbs s1 = pepbs st \<and> peptr s1 = peptr st"
      with a show ?thesis by simp
    next
      assume "\<exists>mhc bs. netmhcpan info = Some mhc \<and> bs_or_rank self mhc = Inr bs
            \<and> bs < max_bs_or_rank self
            \<and> pepbs s1 = AList.update pep (binding_score (var self) bs) (pepbs st)"
      then obtain mhc bs where h: "netmhcpan info = Some mhc" "bs_or_rank self mhc = Inr bs"
        "bs < max_bs_or_rank self"
        "pepbs s1 = AList.update pep (binding_score (var self) bs) (pepbs st)" by blast
      show ?thesis
      proof (cases "q = pep")
        case True
        with a h(4) have "v = binding_score (var self) bs" by (simp add: update_conv')
        with h True x show ?thesis by auto
      next
        case False
        with a h(4) show ?thesis by (simp add: update_conv')
      qed
    qed
  next
    assume "\<exists>info mhc bs. (q, info) \<in> set pdct \<and> netmhcpan info = Some mhc
            \<and> bs_or_rank self mhc = Inr bs \<and> bs < max_bs_or_rank self
            \<and> v = binding_score (var self) bs"
    then show ?thesis by auto
  qed
qed

lemma visit_context_same: "same_ctx a b \<Longrightarrow> same_ctx (visit_context self pep g a) (visit_context self pep g b)"
  by (cases a; cases b) (simp add: same_ctx_def visit_context_def Let_def)

lemma fold_visit_context_same:
  "same_ctx a b \<Longrightarrow> same_ctx (fold (visit_context self pep) gs a) (fold (visit_context self pep) gs b)"
  by (induction gs arbitrary: a b) (simp_all add: visit_context_same)

lemma fold_genes_same:
  "same_ctx a b \<Longrightarrow>
   same_ctx (fold (\<lambda>(gname, gs) st. fold (visit_context self pep) gs st) ge a)
            (fold (\<lambda>(gname, gs) st. fold (visit_context self pep) gs st) ge b)"
proof (induction ge arbitrary: a b)
  case Nil
  then show ?case by simp
next
  case (Cons x ge)
  obtain n gs where x: "x = (n, gs)" by (cases x)
  show ?case
    using Cons.IH [OF fold_visit_context_same [OF Cons.prems, of self pep gs]]
    by (simp add: x)
qed

lemma collect_contexts_fst:
  "fst (collect_contexts self pep ge tis) = fst (collect_contexts self pep ge [])"
proof -
  have "same_ctx ([], [], {}, tis) ([], [], {}, [])" by (simp add: same_ctx_def)
  from fold_genes_same [OF this, of self pep ge] show ?thesis
    by (simp add: collect_contexts_def same_ctx_def)
qed

lemma load_one_dom:
  assumes "load_one self (pep, info) st = Inr st'"
  shows "fst ` set (pepbs st') = fst ` set (pepbs st) \<union>
           {p. p = pep \<and> (\<exists>mhc bs. netmhcpan info = Some mhc \<and> bs_or_rank self mhc = Inr bs
                  \<and> bs < max_bs_or_rank self
                  \<and> contexts_ok self (fst (collect_contexts self pep (genes info) [])))}"
proof (cases "netmhcpan info")
  case None
  with assms show ?thesis by (auto simp: load_one_def split: if_splits)
next
  case (Some mhc)
  with assms obtain bs where bs: "bs_or_rank self mhc = Inr bs"
    by (auto simp: load_one_def ebind_Inr_iff)
  obtain c t s tis where cc: "collect_contexts self pep (genes info) (tr_is_source st) = (c, t, s, tis)"
    by (cases "collect_contexts self pep (genes info) (tr_is_source st)") auto
  have c: "fst (collect_contexts self pep (genes info) []) = c"
    using collect_contexts_fst [of self pep "genes info" "tr_is_source st"] cc by simp
  show ?thesis
  proof (cases "bs < max_bs_or_rank self \<and> contexts_ok self c")
    case True
    with assms Some bs cc have "efold (store_context self pep (binding_score (var self) bs))
        (zip [0..<length c] (zip c t))
        (st\<lparr>tr_is_source := tis, peptr := AList.update pep s (peptr st),
            pepbs := AList.update pep (binding_score (var self) bs) (pepbs st)\<rparr>) = Inr st'"
      by (simp add: load_one_def ebind_def Let_def)
    from efold_store_context_keeps [OF this]
    have "pepbs st' = AList.update pep (binding_score (var self) bs) (pepbs st)" by simp
    with True Some bs c show ?thesis by (auto simp: dom_update)
  next
    case False
    with assms Some bs cc have "pepbs st' = pepbs st"
      by (auto simp: load_one_def ebind_def Let_def split: if_splits)
    with False Some bs c show ?thesis by auto
  qed
qed

lemma efold_load_one_dom:
  assumes "efold (load_one self) pdct st = Inr out"
  shows "fst ` set (pepbs out) = fst ` set (pepbs st) \<union>
           {p. \<exists>info mhc bs. (p, info) \<in> set pdct \<and> netmhcpan info = Some mhc
                  \<and> bs_or_rank self mhc = Inr bs \<and> bs < max_bs_or_rank self
                  \<and> contexts_ok self (fst (collect_contexts self p (genes info) []))}"
  using assms
proof (induction pdct arbitrary: st)
  case Nil
  then show ?case by simp
next
  case (Cons x pdct)
  obtain pep info where x: "x = (pep, info)" by (cases x)
  from Cons.prems obtain s1 where s1: "load_one self (pep, info) st = Inr s1"
    and rest: "efold (load_one self) pdct s1 = Inr out"
    by (auto simp: x split: sum.splits)
  show ?case
    unfolding Cons.IH [OF rest] load_one_dom [OF s1] x by auto
qed

lemma efold_load_one_scores:
  assumes "efold (load_one self) pdct st = Inr out" "(pep, info) \<in> set pdct"
    "netmhcpan info = Some mhc"
  shows "\<exists>bs. bs_or_rank self mhc = Inr bs"
  using assms
proof (induction pdct arbitrary: st)
  case Nil
  then show ?case by simp
next
  case (Cons x pdct)
  from Cons.prems(1) obtain s1 where s1: "load_one self x st = Inr s1"
    and rest: "efold (load_one self) pdct s1 = Inr out"
    by (auto split: sum.splits)
  show ?case
  proof (cases "x = (pep, info)")
    case True
    with s1 Cons.prems(3) show ?thesis by (auto simp: load_one_def ebind_Inr_iff)
  next
    case False
    with Cons.prems(2) have "(pep, info) \<in> set pdct" by simp
    from Cons.IH [OF rest this Cons.prems(3)] show ?thesis .
  qed
qed

subsection \<open>Bounds on the logarithms\<close>

lemma ln5_upper: "196 * ln (5::real) < 137 * ln 10"
proof -
  have p: "ln ((5::real) ^ 196) = real 196 * ln 5" "ln ((10::real) ^ 137) = real 137 * ln 10"
    by (rule ln_realpow)+
  have "(5::real) ^ 196 < 10 ^ 137" by simp
  then have "ln ((5::real) ^ 196) < ln (10 ^ 137)"
    by (rule iffD2 [OF ln_less_cancel_iff, rotated 2]) simp_all
  then show ?thesis unfolding p by simp
qed

lemma ln5_lower: "65 * ln (10::real) < 93 * ln 5"
proof -
  have p: "ln ((10::real) ^ 65) = real 65 * ln 10" "ln ((5::real) ^ 93) = real 93 * ln 5"
    by (rule ln_realpow)+
  have "(10::real) ^ 65 < 5 ^ 93" by simp
  then have "ln ((10::real) ^ 65) < ln (5 ^ 93)"
    by (rule iffD2 [OF ln_less_cancel_iff, rotated 2]) simp_all
  then show ?thesis unfolding p by simp
qed

lemma ln_500: "ln (500::real) = ln 5 + 2 * ln 10"
proof -
  have "ln (5 * (10 * 10)) = ln (5::real) + (ln 10 + ln 10)"
    by (simp only: ln_mult_pos zero_less_numeral mult_pos_pos)
  then show ?thesis by simp
qed

lemma ln_50000: "ln (50000::real) = ln 5 + 4 * ln 10"
proof -
  have "ln (5 * (10 * (10 * (10 * 10)))) = ln (5::real) + (ln 10 + (ln 10 + (ln 10 + ln 10)))"
    by (simp only: ln_mult_pos zero_less_numeral mult_pos_pos)
  then show ?thesis by simp
qed

lemma far_from_4246: "4256 / 10000 < (x::real) \<Longrightarrow> \<not> \<bar>x - 4246 / 10000\<bar> \<le> 5 / 100000"
  by linarith

lemma score_500_bounds:
  "4256 / 10000 < 1 - ln 500 / ln (50000::real)" "1 - ln 500 / ln (50000::real) < 4257 / 10000"
proof -
  define a where "a = ln (5::real)"
  define b where "b = ln (10::real)"
  have a: "0 < a" and b: "0 < b" by (simp_all add: a_def b_def)
  have u: "196 * a < 137 * b" and l: "65 * b < 93 * a"
    using ln5_upper ln5_lower by (simp_all add: a_def b_def)
  have d: "0 < a + 4 * b" using a b by simp
  have e: "1 - ln 500 / ln (50000::real) = 2 * b / (a + 4 * b)"
    using d by (simp add: ln_500 ln_50000 a_def [symmetric] b_def [symmetric] field_simps)
  have "4256 / 10000 * (a + 4 * b) < 2 * b" using u a b by simp
  then show "4256 / 10000 < 1 - ln 500 / ln (50000::real)"
    unfolding e using d by (simp add: pos_less_divide_eq)
  have "2 * b < 4257 / 10000 * (a + 4 * b)" using l a b by simp
  then show "1 - ln 500 / ln (50000::real) < 4257 / 10000"
    unfolding e using d by (simp add: pos_divide_less_eq)
qed

subsection \<open>The example shard\<close>

lemma example_bs: "bs_or_rank example_dataset (the (netmhcpan (example_pinfo x ts))) = Inr x"
  by (simp add: bs_or_rank_def accepted_scores_def example_dataset_def example_pinfo_def
      ebind_def getitem_def py_min_def)

lemma example_load_pepbs:
  "\<exists>out. u_load_peptides example_dataset example_pdct = Inr out \<and>
     pepbs out = [(''SIINFEKL'', Finite (1 - ln 500 / ln 50000)),
                  (''AAAAAAAA'', Finite (1 - ln 1000 / ln 50000))]
   \<and> map fst (peptides0 out) = [(''AAAAAAAA'', 0)] \<and> map fst (peptides1 out) = [(''SIINFEKL'', 0)]"
  by (simp add: u_load_peptides_def example_pdct_def load_one_def example_pinfo_def
      bs_or_rank_def accepted_scores_def example_dataset_def empty_shard_def
      ebind_def getitem_def py_min_def collect_contexts_def visit_context_def Let_def
      contexts_ok_def binding_score_def np_log_def store_context_def put_entry_def)

lemma example_threshold:
  "u_load_peptides example_dataset [(''SIINFEKL'', example_pinfo 1250 [''T1''])]
     = Inr (empty_shard example_dataset)"
  by (simp add: u_load_peptides_def load_one_def example_pinfo_def
      bs_or_rank_def accepted_scores_def example_dataset_def empty_shard_def
      ebind_def getitem_def py_min_def)

subsection \<open>The stored binding score\<close>

lemma binding_score_nM: "0 < bs \<Longrightarrow> binding_score ''nM'' bs = Finite (1 - ln bs / ln 50000)"
  by (simp add: binding_score_def np_log_def)

lemma binding_score_decreasing:
  assumes "0 < a" "a < b"
  shows "1 - ln b / ln (50000::real) < 1 - ln a / ln 50000"
proof -
  have "ln a < ln b" using assms by simp
  moreover have "0 < ln (50000::real)" by simp
  ultimately have "ln a / ln 50000 < ln b / ln 50000" by (rule divide_strict_right_mono)
  then show ?thesis by simp
qed

lemma binding_score_le_1:
  assumes "1 \<le> bs"
  shows "1 - ln bs / ln (50000::real) \<le> 1"
proof -
  have "0 \<le> ln bs" using assms by simp
  moreover have "0 < ln (50000::real)" by simp
  ultimately have "0 \<le> ln bs / ln 50000" by simp
  then show ?thesis by simp
qed

text \<open>
  C1, as amended. A score stored by the loader comes from a peptide of the shard, and is
  the minimum \<open>bs\<close> over the accepted alleles transformed: under \<^verbatim>\<open>nM\<close>, for a positive
  \<open>bs\<close>, it is \<open>1 - ln bs / ln 50000\<close>, which is at most 1 when \<open>bs\<close> is at least 1 nM and
  strictly decreasing in \<open>bs\<close>; under \<^verbatim>\<open>Rank\<close> and \<^verbatim>\<open>Rank_NP\<close> it is \<open>bs\<close> unchanged. At
  500 nM the score lies between 0.4256 and 0.4257.
\<close>

theorem pepbs_binding_score:
  assumes "u_load_peptides self pdct = Inr out" and "map_of (pepbs out) pep = Some v"
  shows "(\<exists>info mhc bs. (pep, info) \<in> set pdct \<and> netmhcpan info = Some mhc
            \<and> bs_or_rank self mhc = Inr bs
            \<and> (var self = ''nM'' \<and> 0 < bs \<longrightarrow>
                 v = Finite (1 - ln bs / ln 50000)
                 \<and> (1 \<le> bs \<longrightarrow> 1 - ln bs / ln 50000 \<le> 1)
                 \<and> (\<forall>b. bs < b \<longrightarrow> 1 - ln b / ln 50000 < 1 - ln bs / ln 50000))
            \<and> (var self = ''Rank'' \<or> var self = ''Rank_NP'' \<longrightarrow> v = Finite bs))
         \<and> (\<exists>x. binding_score ''nM'' 500 = Finite x \<and> 4256 / 10000 < x \<and> x < 4257 / 10000)"
proof
  have run: "efold (load_one self) pdct (empty_shard self) = Inr out"
    using assms(1) by (simp only: u_load_peptides_def)
  have "map_of (pepbs (empty_shard self)) pep = None" by (simp add: empty_shard_def)
  with efold_load_one_pepbs [OF run assms(2)]
  have "\<exists>info mhc bs. (pep, info) \<in> set pdct \<and> netmhcpan info = Some mhc
            \<and> bs_or_rank self mhc = Inr bs \<and> bs < max_bs_or_rank self
            \<and> v = binding_score (var self) bs" by simp
  then obtain info mhc bs where h: "(pep, info) \<in> set pdct" "netmhcpan info = Some mhc"
    "bs_or_rank self mhc = Inr bs" "v = binding_score (var self) bs"
    by blast
  have "var self = ''nM'' \<and> 0 < bs \<longrightarrow>
          v = Finite (1 - ln bs / ln 50000)
          \<and> (1 \<le> bs \<longrightarrow> 1 - ln bs / ln 50000 \<le> 1)
          \<and> (\<forall>b. bs < b \<longrightarrow> 1 - ln b / ln 50000 < 1 - ln bs / ln 50000)"
  proof (intro impI)
    assume a: "var self = ''nM'' \<and> 0 < bs"
    then have pos: "0 < bs" and nm: "var self = ''nM''" by simp_all
    have "v = Finite (1 - ln bs / ln 50000)"
      using h(4) nm binding_score_nM [OF pos] by simp
    moreover have "1 \<le> bs \<longrightarrow> 1 - ln bs / ln 50000 \<le> 1"
      using binding_score_le_1 by blast
    moreover have "\<forall>b. bs < b \<longrightarrow> 1 - ln b / ln 50000 < 1 - ln bs / ln 50000"
      using binding_score_decreasing [OF pos] by blast
    ultimately show "v = Finite (1 - ln bs / ln 50000)
          \<and> (1 \<le> bs \<longrightarrow> 1 - ln bs / ln 50000 \<le> 1)
          \<and> (\<forall>b. bs < b \<longrightarrow> 1 - ln b / ln 50000 < 1 - ln bs / ln 50000)"
      by (intro conjI)
  qed
  moreover have "var self = ''Rank'' \<or> var self = ''Rank_NP'' \<longrightarrow> v = Finite bs"
    using h(4) by (auto simp: binding_score_def)
  ultimately have "(pep, info) \<in> set pdct \<and> netmhcpan info = Some mhc
            \<and> bs_or_rank self mhc = Inr bs
            \<and> (var self = ''nM'' \<and> 0 < bs \<longrightarrow>
                 v = Finite (1 - ln bs / ln 50000)
                 \<and> (1 \<le> bs \<longrightarrow> 1 - ln bs / ln 50000 \<le> 1)
                 \<and> (\<forall>b. bs < b \<longrightarrow> 1 - ln b / ln 50000 < 1 - ln bs / ln 50000))
            \<and> (var self = ''Rank'' \<or> var self = ''Rank_NP'' \<longrightarrow> v = Finite bs)"
    using h(1,2,3) by (intro conjI)
  then show "\<exists>info mhc bs. (pep, info) \<in> set pdct \<and> netmhcpan info = Some mhc
            \<and> bs_or_rank self mhc = Inr bs
            \<and> (var self = ''nM'' \<and> 0 < bs \<longrightarrow>
                 v = Finite (1 - ln bs / ln 50000)
                 \<and> (1 \<le> bs \<longrightarrow> 1 - ln bs / ln 50000 \<le> 1)
                 \<and> (\<forall>b. bs < b \<longrightarrow> 1 - ln b / ln 50000 < 1 - ln bs / ln 50000))
            \<and> (var self = ''Rank'' \<or> var self = ''Rank_NP'' \<longrightarrow> v = Finite bs)"
    by (intro exI)
  have "binding_score ''nM'' 500 = Finite (1 - ln 500 / ln 50000)"
    by (rule binding_score_nM) simp
  with score_500_bounds
  show "\<exists>x. binding_score ''nM'' 500 = Finite x \<and> 4256 / 10000 < x \<and> x < 4257 / 10000"
    by (intro exI [of _ "1 - ln 500 / ln 50000"] conjI)
qed

theorem pepbs_binding_score_witness:
  "\<exists>out. u_load_peptides example_dataset example_pdct = Inr out
     \<and> map_of (pepbs out) ''SIINFEKL'' = Some (Finite (1 - ln 500 / ln 50000))
     \<and> map_of (pepbs out) ''AAAAAAAA'' = Some (Finite (1 - ln 1000 / ln 50000))
     \<and> (\<exists>info mhc. (''SIINFEKL'', info) \<in> set example_pdct \<and> netmhcpan info = Some mhc
           \<and> bs_or_rank example_dataset mhc = Inr 500)"
proof -
  from example_load_pepbs obtain out where
    out: "u_load_peptides example_dataset example_pdct = Inr out"
    and bs: "pepbs out = [(''SIINFEKL'', Finite (1 - ln 500 / ln 50000)),
                          (''AAAAAAAA'', Finite (1 - ln 1000 / ln 50000))]"
    by blast
  have m: "map_of (pepbs out) ''SIINFEKL'' = Some (Finite (1 - ln 500 / ln 50000))"
    by (simp add: bs)
  from pepbs_binding_score [OF out m]
  obtain info mhc b where h: "(''SIINFEKL'', info) \<in> set example_pdct"
    "netmhcpan info = Some mhc" "bs_or_rank example_dataset mhc = Inr b"
    by blast
  from h(1) have "info = example_pinfo 500 [''T1'']" by (simp add: example_pdct_def)
  with h(2,3) example_bs [of 500 "[''T1'']"] have "b = 500" by simp
  with h have e: "\<exists>info mhc. (''SIINFEKL'', info) \<in> set example_pdct
      \<and> netmhcpan info = Some mhc \<and> bs_or_rank example_dataset mhc = Inr 500"
    by blast
  have m2: "map_of (pepbs out) ''AAAAAAAA'' = Some (Finite (1 - ln 1000 / ln 50000))"
    by (simp add: bs)
  from out m m2 e show ?thesis by (intro exI [of _ out] conjI)
qed

text \<open>
  The claim as written fails twice: a peptide at 0.5 nM is retained with a score above 1,
  and the score at 500 nM does not round to 0.4246.
\<close>

theorem pepbs_binding_score_counterexample:
  "u_load_peptides example_dataset [(''SIINFEKL'', example_pinfo (1 / 2) [''T1''])] =
     Inr \<lparr>peptides0 = [],
          peptides1 = [((''SIINFEKL'', 0),
             Created \<lparr>ce_transcriptID = [''T1''], ce_sequenceContext = ''ATGGCC'',
                      ce_other_items = [], expressedTranscripts = [''T1''],
                      expressedTranscriptsExpression = [8],
                      bindingAffinity = Finite (1 - ln (1 / 2) / ln 50000),
                      bindingAffinityMetric = ''nM''\<rparr>)],
          tr_is_source = [(''T1'', True), (''T2'', False)],
          peptr = [(''SIINFEKL'', {''T1''})],
          pepexpr = [((''SIINFEKL'', 0), [8], [''T1''])],
          pepbs = [(''SIINFEKL'', Finite (1 - ln (1 / 2) / ln 50000))]\<rparr>
   \<and> 1 < 1 - ln (1 / 2) / ln (50000::real)
   \<and> binding_score ''nM'' 500 = Finite (1 - ln 500 / ln 50000)
   \<and> \<not> \<bar>1 - ln 500 / ln (50000::real) - 4246 / 10000\<bar> \<le> 5 / 100000"
proof -
  have a: "u_load_peptides example_dataset [(''SIINFEKL'', example_pinfo (1 / 2) [''T1''])] =
     Inr \<lparr>peptides0 = [],
          peptides1 = [((''SIINFEKL'', 0),
             Created \<lparr>ce_transcriptID = [''T1''], ce_sequenceContext = ''ATGGCC'',
                      ce_other_items = [], expressedTranscripts = [''T1''],
                      expressedTranscriptsExpression = [8],
                      bindingAffinity = Finite (1 - ln (1 / 2) / ln 50000),
                      bindingAffinityMetric = ''nM''\<rparr>)],
          tr_is_source = [(''T1'', True), (''T2'', False)],
          peptr = [(''SIINFEKL'', {''T1''})],
          pepexpr = [((''SIINFEKL'', 0), [8], [''T1''])],
          pepbs = [(''SIINFEKL'', Finite (1 - ln (1 / 2) / ln 50000))]\<rparr>"
    by (simp add: u_load_peptides_def load_one_def example_pinfo_def
      bs_or_rank_def accepted_scores_def example_dataset_def empty_shard_def
      ebind_def getitem_def py_min_def collect_contexts_def visit_context_def Let_def
      contexts_ok_def binding_score_def np_log_def store_context_def put_entry_def)
  have "ln (1 / 2 :: real) < 0" by simp
  moreover have "0 < ln (50000::real)" by simp
  ultimately have "ln (1 / 2 :: real) / ln 50000 < 0" by (rule divide_neg_pos)
  then have b: "1 < 1 - ln (1 / 2) / ln (50000::real)" by simp
  have c: "binding_score ''nM'' 500 = Finite (1 - ln 500 / ln 50000)"
    by (simp add: binding_score_nM)
  have d: "\<not> \<bar>1 - ln 500 / ln (50000::real) - 4246 / 10000\<bar> \<le> 5 / 100000"
    using score_500_bounds(1) by (rule far_from_4246)
  from a b c d show ?thesis by (intro conjI)
qed

subsection \<open>The keys of the peptide buckets\<close>

lemma put_entry_bucket:
  "fst ` set (bucket b (put_entry ix k e st)) = fst ` set (bucket b st) \<union> (if b = ix then {k} else {})"
  by (simp add: bucket_def put_entry_def dom_update)

lemma bucket_update [simp]:
  "bucket b (st\<lparr>pepexpr := x\<rparr>) = bucket b st"
  "bucket b (st\<lparr>tr_is_source := y\<rparr>) = bucket b st"
  "bucket b (st\<lparr>peptr := z\<rparr>) = bucket b st"
  "bucket b (st\<lparr>pepbs := w\<rparr>) = bucket b st"
  by (simp_all add: bucket_def)

lemma store_context_bucket:
  assumes "store_context self pep bsv (i, g, tr) st = Inr st'"
  shows "fst ` set (bucket b st') = fst ` set (bucket b st) \<union>
           {k. k = (pep, i) \<and> b = (pep \<in> detected_peptides self)
                \<and> \<not> str_contains ''!GA'' (sequenceContext g)}"
proof (cases "str_contains ''!GA'' (sequenceContext g)")
  case True
  with assms have "st' = st" by (auto simp: store_context_def ebind_Inr_iff)
  with True show ?thesis by simp
next
  case False
  from assms False obtain exp e where
    "st' = put_entry (pep \<in> detected_peptides self) (pep, i) e
             (st\<lparr>pepexpr := AList.update (pep, i) (exp, tr) (pepexpr st)\<rparr>)"
    by (auto simp: store_context_def ebind_Inr_iff Let_def split: if_splits)
  then show ?thesis using False by (auto simp: put_entry_bucket)
qed

lemma efold_store_context_bucket:
  "efold (store_context self pep bsv) xs st = Inr st' \<Longrightarrow>
     fst ` set (bucket b st') = fst ` set (bucket b st) \<union>
       {k. \<exists>i g tr. (i, g, tr) \<in> set xs \<and> k = (pep, i) \<and> b = (pep \<in> detected_peptides self)
                \<and> \<not> str_contains ''!GA'' (sequenceContext g)}"
proof (induction xs arbitrary: st)
  case Nil
  then show ?case by simp
next
  case (Cons x xs)
  obtain i g tr where x: "x = (i, g, tr)" by (cases x)
  from Cons.prems obtain s1 where s1: "store_context self pep bsv (i, g, tr) st = Inr s1"
    and rest: "efold (store_context self pep bsv) xs s1 = Inr st'"
    by (auto simp: x split: sum.splits)
  show ?case
    unfolding Cons.IH [OF rest] store_context_bucket [OF s1] x by auto
qed

lemma visit_context_len: "same_len a \<Longrightarrow> same_len (visit_context self pep g a)"
  by (cases a) (simp add: same_len_def visit_context_def Let_def)

lemma fold_visit_context_len: "same_len a \<Longrightarrow> same_len (fold (visit_context self pep) gs a)"
  by (induction gs arbitrary: a) (simp_all add: visit_context_len)

lemma fold_genes_len:
  "same_len a \<Longrightarrow> same_len (fold (\<lambda>(gname, gs) st. fold (visit_context self pep) gs st) ge a)"
proof (induction ge arbitrary: a)
  case Nil
  then show ?case by simp
next
  case (Cons x ge)
  obtain n gs where x: "x = (n, gs)" by (cases x)
  show ?case
    using Cons.IH [OF fold_visit_context_len [OF Cons.prems, of self pep gs]]
    by (simp add: x)
qed

lemma collect_contexts_len: "same_len (collect_contexts self pep ge tis)"
proof -
  have "same_len ([], [], {}, tis)" by (simp add: same_len_def)
  from fold_genes_len [OF this, of self pep ge] show ?thesis
    by (simp add: collect_contexts_def)
qed

lemma zip_contexts:
  assumes "length t = length c"
  shows "(\<exists>g tr. (i, g, tr) \<in> set (zip [0..<length c] (zip c t)) \<and> P g)
           \<longleftrightarrow> i < length c \<and> P (c ! i)"
proof
  assume "\<exists>g tr. (i, g, tr) \<in> set (zip [0..<length c] (zip c t)) \<and> P g"
  with assms show "i < length c \<and> P (c ! i)" by (auto simp: in_set_zip)
next
  assume a: "i < length c \<and> P (c ! i)"
  with assms have "(i, c ! i, t ! i) \<in> set (zip [0..<length c] (zip c t))"
    by (simp add: in_set_zip) (rule exI [of _ i], simp)
  with a show "\<exists>g tr. (i, g, tr) \<in> set (zip [0..<length c] (zip c t)) \<and> P g" by blast
qed

lemma load_one_bucket:
  assumes "load_one self (pep, info) st = Inr st'"
  shows "fst ` set (bucket b st') = fst ` set (bucket b st) \<union>
           {k. \<exists>i mhc bs. k = (pep, i) \<and> netmhcpan info = Some mhc
                  \<and> bs_or_rank self mhc = Inr bs \<and> bs < max_bs_or_rank self
                  \<and> contexts_ok self (fst (collect_contexts self pep (genes info) []))
                  \<and> i < length (fst (collect_contexts self pep (genes info) []))
                  \<and> b = (pep \<in> detected_peptides self)
                  \<and> \<not> str_contains ''!GA''
                        (sequenceContext (fst (collect_contexts self pep (genes info) []) ! i))}"
proof (cases "netmhcpan info")
  case None
  with assms show ?thesis by (auto simp: load_one_def split: if_splits)
next
  case (Some mhc)
  with assms obtain bs where bs: "bs_or_rank self mhc = Inr bs"
    by (auto simp: load_one_def ebind_Inr_iff)
  obtain c t s tis where cc: "collect_contexts self pep (genes info) (tr_is_source st) = (c, t, s, tis)"
    by (cases "collect_contexts self pep (genes info) (tr_is_source st)") auto
  have c: "fst (collect_contexts self pep (genes info) []) = c"
    using collect_contexts_fst [of self pep "genes info" "tr_is_source st"] cc by simp
  have len: "length t = length c"
    using collect_contexts_len [of self pep "genes info" "tr_is_source st"] cc
    by (simp add: same_len_def)
  show ?thesis
  proof (cases "bs < max_bs_or_rank self \<and> contexts_ok self c")
    case True
    with assms Some bs cc have "efold (store_context self pep (binding_score (var self) bs))
        (zip [0..<length c] (zip c t))
        (st\<lparr>tr_is_source := tis, peptr := AList.update pep s (peptr st),
            pepbs := AList.update pep (binding_score (var self) bs) (pepbs st)\<rparr>) = Inr st'"
      by (simp add: load_one_def ebind_def Let_def)
    from efold_store_context_bucket [OF this, of b]
    have "fst ` set (bucket b st') = fst ` set (bucket b st) \<union>
       {k. \<exists>i. k = (pep, i) \<and> b = (pep \<in> detected_peptides self)
              \<and> (\<exists>g tr. (i, g, tr) \<in> set (zip [0..<length c] (zip c t))
                     \<and> \<not> str_contains ''!GA'' (sequenceContext g))}"
      by auto
    then have "fst ` set (bucket b st') = fst ` set (bucket b st) \<union>
       {k. \<exists>i. k = (pep, i) \<and> b = (pep \<in> detected_peptides self)
              \<and> i < length c \<and> \<not> str_contains ''!GA'' (sequenceContext (c ! i))}"
      by (simp only: zip_contexts [OF len])
    with True Some bs show ?thesis unfolding c by auto
  next
    case False
    with assms Some bs cc have "bucket b st' = bucket b st"
      by (auto simp: load_one_def ebind_def Let_def split: if_splits)
    with False Some bs show ?thesis unfolding c by auto
  qed
qed

lemma efold_load_one_bucket:
  assumes "efold (load_one self) pdct st = Inr out"
  shows "fst ` set (bucket b out) = fst ` set (bucket b st) \<union>
           {k. \<exists>info mhc bs. (fst k, info) \<in> set pdct \<and> netmhcpan info = Some mhc
                  \<and> bs_or_rank self mhc = Inr bs \<and> bs < max_bs_or_rank self
                  \<and> contexts_ok self (fst (collect_contexts self (fst k) (genes info) []))
                  \<and> snd k < length (fst (collect_contexts self (fst k) (genes info) []))
                  \<and> b = (fst k \<in> detected_peptides self)
                  \<and> \<not> str_contains ''!GA''
                        (sequenceContext (fst (collect_contexts self (fst k) (genes info) []) ! snd k))}"
  using assms
proof (induction pdct arbitrary: st)
  case Nil
  then show ?case by simp
next
  case (Cons x pdct)
  obtain pep info where x: "x = (pep, info)" by (cases x)
  from Cons.prems obtain s1 where s1: "load_one self (pep, info) st = Inr s1"
    and rest: "efold (load_one self) pdct s1 = Inr out"
    by (auto simp: x split: sum.splits)
  show ?case
    unfolding Cons.IH [OF rest] load_one_bucket [OF s1] x by auto
qed

lemma load_one_peptr_dom:
  assumes "load_one self (pep, info) st = Inr st'"
    and "fst ` set (peptr st) = fst ` set (pepbs st)"
  shows "fst ` set (peptr st') = fst ` set (pepbs st')"
proof (cases "netmhcpan info")
  case None
  with assms show ?thesis by (auto simp: load_one_def split: if_splits)
next
  case (Some mhc)
  with assms obtain bs where bs: "bs_or_rank self mhc = Inr bs"
    by (auto simp: load_one_def ebind_Inr_iff)
  obtain c t s tis where cc: "collect_contexts self pep (genes info) (tr_is_source st) = (c, t, s, tis)"
    by (cases "collect_contexts self pep (genes info) (tr_is_source st)") auto
  show ?thesis
  proof (cases "bs < max_bs_or_rank self \<and> contexts_ok self c")
    case True
    with assms Some bs cc have "efold (store_context self pep (binding_score (var self) bs))
        (zip [0..<length c] (zip c t))
        (st\<lparr>tr_is_source := tis, peptr := AList.update pep s (peptr st),
            pepbs := AList.update pep (binding_score (var self) bs) (pepbs st)\<rparr>) = Inr st'"
      by (simp add: load_one_def ebind_def Let_def)
    from efold_store_context_keeps [OF this]
    have "pepbs st' = AList.update pep (binding_score (var self) bs) (pepbs st)"
      and "peptr st' = AList.update pep s (peptr st)" by simp_all
    with assms(2) show ?thesis by (simp add: dom_update)
  next
    case False
    with assms Some bs cc have "pepbs st' = pepbs st \<and> peptr st' = peptr st"
      by (auto simp: load_one_def ebind_def Let_def split: if_splits)
    with assms(2) show ?thesis by simp
  qed
qed

lemma efold_load_one_peptr_dom:
  "efold (load_one self) pdct st = Inr out \<Longrightarrow> fst ` set (peptr st) = fst ` set (pepbs st)
     \<Longrightarrow> fst ` set (peptr out) = fst ` set (pepbs out)"
proof (induction pdct arbitrary: st)
  case Nil
  then show ?case by simp
next
  case (Cons x pdct)
  obtain pep info where x: "x = (pep, info)" by (cases x)
  from Cons.prems(1) obtain s1 where s1: "load_one self (pep, info) st = Inr s1"
    and rest: "efold (load_one self) pdct s1 = Inr out"
    by (auto simp: x split: sum.splits)
  from Cons.IH [OF rest load_one_peptr_dom [OF s1 Cons.prems(2)]] show ?case .
qed


lemma load_peptides_unique:
  assumes "efold (load_one self) pdct st = Inr out" and "distinct (map fst pdct)"
    and "map_of pdct pep = Some info" and "netmhcpan info = Some mhc"
    and "bs_or_rank self mhc = Inr bs"
  shows "(\<exists>info' mhc' bs'. (pep, info') \<in> set pdct \<and> netmhcpan info' = Some mhc'
              \<and> bs_or_rank self mhc' = Inr bs' \<and> Q info' bs') \<longleftrightarrow> Q info bs"
proof
  assume "\<exists>info' mhc' bs'. (pep, info') \<in> set pdct \<and> netmhcpan info' = Some mhc'
              \<and> bs_or_rank self mhc' = Inr bs' \<and> Q info' bs'"
  then obtain info' mhc' bs' where h: "(pep, info') \<in> set pdct"
    "netmhcpan info' = Some mhc'" "bs_or_rank self mhc' = Inr bs'" "Q info' bs'" by blast
  from map_of_is_SomeI [OF assms(2) h(1)] assms(3) have i: "info' = info" by simp
  with h(2) assms(4) have "mhc' = mhc" by simp
  with h(3) assms(5) have "bs' = bs" by simp
  with h(4) i show "Q info bs" by simp
next
  assume q: "Q info bs"
  have mem: "(pep, info) \<in> set pdct" using assms(3) by (rule map_of_SomeD)
  from mem assms(4,5) q
  show "\<exists>info' mhc' bs'. (pep, info') \<in> set pdct \<and> netmhcpan info' = Some mhc'
              \<and> bs_or_rank self mhc' = Inr bs' \<and> Q info' bs'"
    by (intro exI [of _ info] exI [of _ mhc] exI [of _ bs] conjI)
qed

subsection \<open>The binding threshold\<close>

text \<open>
  C7, as amended. For a peptide of the shard with binding data the loader computes the
  minimum \<open>bs\<close> over the accepted alleles. It records the score and the transcript set of
  the peptide exactly when \<open>bs\<close> is strictly below the threshold and the peptide has between
  one and \<^verbatim>\<open>max_contexts\<close> contexts with an expressed transcript; and it stores the entry
  \<open>(pep, i)\<close> exactly when, moreover, \<open>i\<close> is the index of such a context without the gap
  marker \<^verbatim>\<open>!GA\<close>, in the bucket of the detected peptides or in the other one according
  to the peptide. So a peptide whose minimum equals the threshold is rejected.
\<close>

theorem binding_threshold_strict:
  assumes "u_load_peptides self pdct = Inr out" and "distinct (map fst pdct)"
    and "map_of pdct pep = Some info" and "netmhcpan info = Some mhc"
  shows "\<exists>bs. bs_or_rank self mhc = Inr bs
           \<and> (pep \<in> fst ` set (pepbs out) \<longleftrightarrow>
                bs < max_bs_or_rank self
                \<and> contexts_ok self (fst (collect_contexts self pep (genes info) [])))
           \<and> (pep \<in> fst ` set (peptr out) \<longleftrightarrow>
                bs < max_bs_or_rank self
                \<and> contexts_ok self (fst (collect_contexts self pep (genes info) [])))
           \<and> (\<forall>ix i. (pep, i) \<in> fst ` set (bucket ix out) \<longleftrightarrow>
                bs < max_bs_or_rank self
                \<and> contexts_ok self (fst (collect_contexts self pep (genes info) []))
                \<and> i < length (fst (collect_contexts self pep (genes info) []))
                \<and> ix = (pep \<in> detected_peptides self)
                \<and> \<not> str_contains ''!GA''
                      (sequenceContext (fst (collect_contexts self pep (genes info) []) ! i)))"
proof -
  have mem: "(pep, info) \<in> set pdct" using assms(3) by (rule map_of_SomeD)
  have run: "efold (load_one self) pdct (empty_shard self) = Inr out"
    using assms(1) by (simp only: u_load_peptides_def)
  from efold_load_one_scores [OF run mem assms(4)]
  obtain bs where bs: "bs_or_rank self mhc = Inr bs" by blast
  note uniq = load_peptides_unique [OF run assms(2,3,4) bs]
  have e: "fst ` set (pepbs (empty_shard self)) = {}" by (simp add: empty_shard_def)
  have e': "fst ` set (peptr (empty_shard self)) = fst ` set (pepbs (empty_shard self))"
    by (simp add: empty_shard_def)
  have eb: "fst ` set (bucket ix (empty_shard self)) = {}" for ix
    by (simp add: empty_shard_def bucket_def)
  have "pep \<in> fst ` set (pepbs out) \<longleftrightarrow>
          (\<exists>info' mhc' bs'. (pep, info') \<in> set pdct \<and> netmhcpan info' = Some mhc'
              \<and> bs_or_rank self mhc' = Inr bs' \<and> (bs' < max_bs_or_rank self
              \<and> contexts_ok self (fst (collect_contexts self pep (genes info') []))))"
    unfolding efold_load_one_dom [OF run] e by simp
  then have a: "pep \<in> fst ` set (pepbs out) \<longleftrightarrow> bs < max_bs_or_rank self
                \<and> contexts_ok self (fst (collect_contexts self pep (genes info) []))"
    by (simp only: uniq)
  from efold_load_one_peptr_dom [OF run e'] a
  have b: "pep \<in> fst ` set (peptr out) \<longleftrightarrow> bs < max_bs_or_rank self
                \<and> contexts_ok self (fst (collect_contexts self pep (genes info) []))"
    by simp
  have c: "(pep, i) \<in> fst ` set (bucket ix out) \<longleftrightarrow>
                bs < max_bs_or_rank self
                \<and> contexts_ok self (fst (collect_contexts self pep (genes info) []))
                \<and> i < length (fst (collect_contexts self pep (genes info) []))
                \<and> ix = (pep \<in> detected_peptides self)
                \<and> \<not> str_contains ''!GA''
                      (sequenceContext (fst (collect_contexts self pep (genes info) []) ! i))"
    for ix i
  proof -
    have "(pep, i) \<in> fst ` set (bucket ix out) \<longleftrightarrow>
          (\<exists>info' mhc' bs'. (pep, info') \<in> set pdct \<and> netmhcpan info' = Some mhc'
              \<and> bs_or_rank self mhc' = Inr bs' \<and> (bs' < max_bs_or_rank self
                \<and> contexts_ok self (fst (collect_contexts self pep (genes info') []))
                \<and> i < length (fst (collect_contexts self pep (genes info') []))
                \<and> ix = (pep \<in> detected_peptides self)
                \<and> \<not> str_contains ''!GA''
                      (sequenceContext (fst (collect_contexts self pep (genes info') []) ! i))))"
      unfolding efold_load_one_bucket [OF run] eb by simp
    then show ?thesis by (simp only: uniq)
  qed
  from bs a b c show ?thesis by (intro exI [of _ bs] conjI allI)
qed


theorem binding_threshold_strict_witness:
  "\<exists>out. u_load_peptides example_dataset example_pdct = Inr out
     \<and> distinct (map fst example_pdct)
     \<and> map_of example_pdct ''SIINFEKL'' = Some (example_pinfo 500 [''T1''])
     \<and> bs_or_rank example_dataset (the (netmhcpan (example_pinfo 500 [''T1'']))) = Inr 500
     \<and> 500 < max_bs_or_rank example_dataset
     \<and> ''SIINFEKL'' \<in> fst ` set (pepbs out)
     \<and> ''SIINFEKL'' \<in> fst ` set (peptr out)
     \<and> (''SIINFEKL'', 0) \<in> fst ` set (bucket True out)
     \<and> (''SIINFEKL'', 0) \<notin> fst ` set (bucket False out)"
proof -
  from example_load_pepbs obtain out where
    out: "u_load_peptides example_dataset example_pdct = Inr out" by blast
  have d: "distinct (map fst example_pdct)" by (simp add: example_pdct_def)
  have m: "map_of example_pdct ''SIINFEKL'' = Some (example_pinfo 500 [''T1''])"
    by (simp add: example_pdct_def)
  have n: "netmhcpan (example_pinfo 500 [''T1'']) =
             Some (the (netmhcpan (example_pinfo 500 [''T1''])))"
    by (simp add: example_pinfo_def)
  have t: "(500::real) < max_bs_or_rank example_dataset" by (simp add: example_dataset_def)
  have c: "fst (collect_contexts example_dataset ''SIINFEKL'' (genes (example_pinfo 500 [''T1''])) [])
             = [\<lparr>transcriptID = [''T1''], sequenceContext = ''ATGGCC'',
                  CAMAPScore = None, other_items = []\<rparr>]"
    by (simp add: collect_contexts_def visit_context_def example_pinfo_def
        example_dataset_def Let_def)
  have k: "contexts_ok example_dataset
             [\<lparr>transcriptID = [''T1''], sequenceContext = ''ATGGCC'',
                CAMAPScore = None, other_items = []\<rparr>]"
    by (simp add: contexts_ok_def example_dataset_def)
  have det: "''SIINFEKL'' \<in> detected_peptides example_dataset"
    by (simp add: example_dataset_def)
  from binding_threshold_strict [OF out d m n] example_bs [of 500 "[''T1'']"]
  have r: "''SIINFEKL'' \<in> fst ` set (pepbs out)"
    and r': "''SIINFEKL'' \<in> fst ` set (peptr out)"
    and r1: "(''SIINFEKL'', 0) \<in> fst ` set (bucket True out)"
    and r0: "(''SIINFEKL'', 0) \<notin> fst ` set (bucket False out)"
    unfolding c using t k det by auto
  from out d m example_bs [of 500 "[''T1'']"] t r r' r1 r0 show ?thesis
    by (intro exI [of _ out] conjI)
qed

text \<open>
  The claim as written fails at equality: a peptide whose minimum is the threshold itself,
  1250 nM, is not stored.
\<close>

theorem binding_threshold_counterexample:
  "bs_or_rank example_dataset (the (netmhcpan (example_pinfo 1250 [''T1'']))) = Inr 1250
   \<and> max_bs_or_rank example_dataset = 1250
   \<and> u_load_peptides example_dataset [(''SIINFEKL'', example_pinfo 1250 [''T1''])]
       = Inr (empty_shard example_dataset)
   \<and> pepbs (empty_shard example_dataset) = []
   \<and> peptr (empty_shard example_dataset) = []
   \<and> peptides0 (empty_shard example_dataset) = []
   \<and> peptides1 (empty_shard example_dataset) = []"
  using example_bs [of 1250 "[''T1'']"] example_threshold
  by (simp add: empty_shard_def example_dataset_def)

subsection \<open>The filter after the merge\<close>

lemma map_of_filter_key:
  "map_of (filter (\<lambda>(p, v). P p) xs) k = (if P k then map_of xs k else None)"
  by (induction xs) auto

lemma delitem_Inr: "delitem d k = Inr d' \<Longrightarrow> set d' \<subseteq> set d \<and> k \<notin> fst ` set d'"
  by (auto simp: delitem_def AList.delete_eq split: if_splits)

lemma remove_step_cases:
  assumes "remove_step ptr src k (ns, pe, rem) = Inr (ns1, pe1, rem1)"
  shows "(kept_key ptr src k \<and> ns1 = ns \<and> pe1 = pe \<and> rem1 = rem) \<or>
         (\<not> kept_key ptr src k \<and> set ns1 \<subseteq> set ns \<and> k \<notin> fst ` set ns1
            \<and> rem1 = insert (fst k) rem)"
proof -
  from assms obtain trs where t: "map_of ptr (fst k) = Some trs"
    by (auto simp: remove_step_def ebind_Inr_iff getitem_def split: option.splits)
  show ?thesis
  proof (cases "trs \<inter> src = {}")
    case True
    with assms t show ?thesis
      by (auto simp: remove_step_def ebind_def getitem_def kept_key_def)
  next
    case False
    with assms t obtain pe' where "delitem ns k = Inr ns1" "delitem pe k = Inr pe'"
      "rem1 = insert (fst k) rem"
      by (auto simp: remove_step_def ebind_Inr_iff getitem_def)
    with delitem_Inr [of ns k ns1] False t show ?thesis
      by (simp add: kept_key_def)
  qed
qed

lemma efold_remove_step_subset:
  "efold (remove_step ptr src) ks (ns, pe, rem) = Inr (ns', pe', rem') \<Longrightarrow> set ns' \<subseteq> set ns"
proof (induction ks arbitrary: ns pe rem)
  case Nil
  then show ?case by simp
next
  case (Cons k ks)
  from Cons.prems obtain ns1 pe1 rem1 where
    s1: "remove_step ptr src k (ns, pe, rem) = Inr (ns1, pe1, rem1)"
    and rest: "efold (remove_step ptr src) ks (ns1, pe1, rem1) = Inr (ns', pe', rem')"
    by (auto split: sum.splits)
  from remove_step_cases [OF s1] have "set ns1 \<subseteq> set ns" by (elim disjE conjE) simp_all
  with Cons.IH [OF rest] show ?case by (rule subset_trans)
qed

lemma efold_remove_step_keys:
  "efold (remove_step ptr src) ks (ns, pe, rem) = Inr (ns', pe', rem') \<Longrightarrow> k \<in> set ks
     \<Longrightarrow> k \<in> fst ` set ns' \<Longrightarrow> kept_key ptr src k"
proof (induction ks arbitrary: ns pe rem)
  case Nil
  then show ?case by simp
next
  case (Cons k0 ks)
  from Cons.prems(1) obtain ns1 pe1 rem1 where
    s1: "remove_step ptr src k0 (ns, pe, rem) = Inr (ns1, pe1, rem1)"
    and rest: "efold (remove_step ptr src) ks (ns1, pe1, rem1) = Inr (ns', pe', rem')"
    by (auto split: sum.splits)
  show ?case
  proof (cases "k = k0")
    case True
    from remove_step_cases [OF s1] show ?thesis
    proof (elim disjE conjE)
      assume "kept_key ptr src k0"
      with True show ?thesis by simp
    next
      assume "k0 \<notin> fst ` set ns1"
      moreover from efold_remove_step_subset [OF rest] have "fst ` set ns' \<subseteq> fst ` set ns1"
        by (rule image_mono)
      ultimately have "k0 \<notin> fst ` set ns'" by blast
      with Cons.prems(3) True show ?thesis by simp
    qed
  next
    case False
    with Cons.prems(2) have "k \<in> set ks" by simp
    from Cons.IH [OF rest this Cons.prems(3)] show ?thesis .
  qed
qed

lemma efold_remove_step_rem:
  "efold (remove_step ptr src) ks (ns, pe, rem) = Inr (ns', pe', rem') \<Longrightarrow> p \<in> rem'
     \<Longrightarrow> p \<in> rem \<or> (\<exists>k. fst k = p \<and> \<not> kept_key ptr src k)"
proof (induction ks arbitrary: ns pe rem)
  case Nil
  then show ?case by simp
next
  case (Cons k0 ks)
  from Cons.prems(1) obtain ns1 pe1 rem1 where
    s1: "remove_step ptr src k0 (ns, pe, rem) = Inr (ns1, pe1, rem1)"
    and rest: "efold (remove_step ptr src) ks (ns1, pe1, rem1) = Inr (ns', pe', rem')"
    by (auto split: sum.splits)
  from Cons.IH [OF rest Cons.prems(2)] show ?case
  proof
    assume p: "p \<in> rem1"
    from remove_step_cases [OF s1] show ?thesis
    proof (elim disjE conjE)
      assume "rem1 = rem"
      with p show ?thesis by simp
    next
      assume n: "\<not> kept_key ptr src k0" and "rem1 = insert (fst k0) rem"
      with p have "p = fst k0 \<or> p \<in> rem" by simp
      then show ?thesis
      proof
        assume "p = fst k0"
        with n have "fst k0 = p \<and> \<not> kept_key ptr src k0" by simp
        then have "\<exists>k. fst k = p \<and> \<not> kept_key ptr src k" by (rule exI)
        then show ?thesis by (rule disjI2)
      next
        assume "p \<in> rem"
        then show ?thesis by (rule disjI1)
      qed
    qed
  next
    assume "\<exists>k. fst k = p \<and> \<not> kept_key ptr src k"
    then show ?thesis by (rule disjI2)
  qed
qed

lemma efold_remove_step_kept:
  assumes "\<forall>k \<in> set ks. kept_key ptr src k"
  shows "efold (remove_step ptr src) ks st = Inr st"
  using assms
proof (induction ks)
  case Nil
  then show ?case by simp
next
  case (Cons k ks)
  then obtain trs where "map_of ptr (fst k) = Some trs" "trs \<inter> src = {}"
    by (auto simp: kept_key_def)
  then have "remove_step ptr src k st = Inr st"
    by (cases st) (simp add: remove_step_def ebind_def getitem_def)
  with Cons show ?case by simp
qed

lemma remove_source_peptides_result:
  assumes "remove_source_peptides src m = Inr m'"
  shows "(\<forall>k \<in> fst ` set (peptides0 m'). kept_key (peptr m') src k)
         \<and> remove_source_peptides src m' = Inr m'"
proof -
  from assms [unfolded remove_source_peptides_def ebind_Inr_iff]
  obtain st where st: "efold (remove_step (peptr m) src) (map fst (peptides0 m))
                       (peptides0 m, pepexpr m, {}) = Inr st"
    and res: "(case st of (ns, pe, rem) \<Rightarrow>
                      Inr (m\<lparr>peptides0 := ns, pepexpr := pe,
                             peptr := filter (\<lambda>(p, trs). p \<notin> rem) (peptr m)\<rparr>))
                = (Inr m' :: py_error + shard)"
    by - (erule exE, erule conjE, rule that)
  obtain ns pe rem where sp: "st = (ns, pe, rem)" by (cases st)
  have run: "efold (remove_step (peptr m) src) (map fst (peptides0 m)) (peptides0 m, pepexpr m, {})
            = Inr (ns, pe, rem)" using st sp by simp
  have m': "m' = m\<lparr>peptides0 := ns, pepexpr := pe,
                    peptr := filter (\<lambda>(p, trs). p \<notin> rem) (peptr m)\<rparr>"
    using res sp by simp
  have p: "peptides0 m' = ns" "pepexpr m' = pe" by (simp_all add: m')
  have pm: "peptr m' = filter (\<lambda>(p, trs). p \<notin> rem) (peptr m)" by (simp add: m')
  have k': "kept_key (peptr m') src k" if "k \<in> fst ` set ns" for k
  proof -
    from efold_remove_step_subset [OF run] have "fst ` set ns \<subseteq> fst ` set (peptides0 m)"
      by (rule image_mono)
    from this that have "k \<in> fst ` set (peptides0 m)" by (rule subsetD)
    then have "k \<in> set (map fst (peptides0 m))" by simp
    from efold_remove_step_keys [OF run this that] have kk: "kept_key (peptr m) src k" .
    have "fst k \<notin> rem"
    proof
      assume "fst k \<in> rem"
      from efold_remove_step_rem [OF run this]
      obtain k2 where "fst k2 = fst k" "\<not> kept_key (peptr m) src k2" by auto
      with kk show False by (simp add: kept_key_def)
    qed
    with kk show ?thesis by (simp add: pm kept_key_def map_of_filter_key)
  qed
  then have all: "\<forall>k \<in> set (map fst ns). kept_key (peptr m') src k" by simp
  from efold_remove_step_kept [OF all]
  have "efold (remove_step (peptr m') src) (map fst ns) (ns, pe, {}) = Inr (ns, pe, {})" .
  then have i: "remove_source_peptides src m' = Inr m'"
    by (simp add: remove_source_peptides_def ebind_def p)
  from k' have "\<forall>k \<in> fst ` set (peptides0 m'). kept_key (peptr m') src k"
    unfolding p by (rule ballI)
  from this i show ?thesis by (rule conjI)
qed

lemma remove_source_peptides_flags:
  assumes "remove_source_peptides src m = Inr m'"
  shows "tr_is_source m' = tr_is_source m"
proof -
  from assms [unfolded remove_source_peptides_def ebind_Inr_iff]
  obtain st where res: "(case st of (ns, pe, rem) \<Rightarrow>
                      Inr (m\<lparr>peptides0 := ns, pepexpr := pe,
                             peptr := filter (\<lambda>(p, trs). p \<notin> rem) (peptr m)\<rparr>))
                = (Inr m' :: py_error + shard)"
    by - (erule exE, erule conjE, rule that)
  obtain ns pe rem where sp: "st = (ns, pe, rem)" by (cases st)
  have "m' = m\<lparr>peptides0 := ns, pepexpr := pe,
                    peptr := filter (\<lambda>(p, trs). p \<notin> rem) (peptr m)\<rparr>"
    using res sp by simp
  then show ?thesis by simp
qed

lemma source_set_simps:
  "source_set [] = {}"
  "source_set ((t, b) # xs) = (if b then insert t (source_set xs) else source_set xs)"
  by (auto simp: source_set_def)

lemma example_load_peptides:
  "\<exists>m. load_peptides example_dataset [example_pdct, example_pdct2] = Inr ({''T1''}, m)
     \<and> map fst (peptides0 m) = [(''AAAAAAAA'', 0)]
     \<and> map fst (peptides1 m) = [(''SIINFEKL'', 0)]
     \<and> peptr m = [(''SIINFEKL'', {''T1''}), (''AAAAAAAA'', {''T2''})]"
  by (simp add: load_peptides_def u_load_peptides_def example_pdct_def example_pdct2_def
      load_one_def example_pinfo_def
      bs_or_rank_def accepted_scores_def example_dataset_def empty_shard_def
      ebind_def getitem_def py_min_def collect_contexts_def visit_context_def Let_def
      contexts_ok_def binding_score_def np_log_def store_context_def put_entry_def
      merge_shard_def or_flags_def dict_update_def source_set_simps remove_source_peptides_def
      remove_step_def delitem_def)

text \<open>
  C2. When \<^verbatim>\<open>load_peptides\<close> returns, every key \<open>(peptide, i)\<close> left in the nonsource
  bucket has a transcript set, and this set is disjoint from the source transcripts of the
  result, which are still those that the merged flags give. Running the filter of lines
  144-152 again on the result, with these source transcripts, returns the result unchanged.
\<close>

theorem load_peptides_nonsource_disjoint:
  assumes "load_peptides self pdcts = Inr (source_transcripts, m)"
  shows "(\<forall>k \<in> fst ` set (peptides0 m).
            \<exists>trs. map_of (peptr m) (fst k) = Some trs \<and> trs \<inter> source_transcripts = {})
         \<and> source_set (tr_is_source m) = source_transcripts
         \<and> remove_source_peptides source_transcripts m = Inr m"
proof -
  from assms [unfolded load_peptides_def ebind_Inr_iff Let_def]
  obtain m0 m1 where
    r0: "remove_source_peptides (source_set (tr_is_source m0)) m0 = Inr m1"
    and e: "(Inr (source_set (tr_is_source m0), m1) :: py_error + transcript set \<times> shard)
              = Inr (source_transcripts, m)"
    by - (elim exE conjE, rule that)
  from e have s: "source_transcripts = source_set (tr_is_source m0)" and "m1 = m" by simp_all
  with r0 have r: "remove_source_peptides (source_set (tr_is_source m0)) m0 = Inr m" by simp
  from remove_source_peptides_flags [OF r] s
  have f: "source_set (tr_is_source m) = source_transcripts" by simp
  from remove_source_peptides_result [OF r [folded s]]
  have a: "\<forall>k \<in> fst ` set (peptides0 m).
            \<exists>trs. map_of (peptr m) (fst k) = Some trs \<and> trs \<inter> source_transcripts = {}"
    and i: "remove_source_peptides source_transcripts m = Inr m"
    unfolding kept_key_def by (rule conjunct1, rule conjunct2)
  from a f i show ?thesis by (intro conjI)
qed

theorem load_peptides_nonsource_disjoint_witness:
  "\<exists>m. load_peptides example_dataset [example_pdct, example_pdct2] = Inr ({''T1''}, m)
     \<and> map fst (peptides0 m) = [(''AAAAAAAA'', 0)]
     \<and> map_of (peptr m) ''AAAAAAAA'' = Some {''T2''}
     \<and> {''T2''} \<inter> {''T1''} = ({} :: transcript set)
     \<and> source_set (tr_is_source m) = {''T1''}
     \<and> remove_source_peptides {''T1''} m = Inr m"
proof -
  from example_load_peptides obtain m where
    l: "load_peptides example_dataset [example_pdct, example_pdct2] = Inr ({''T1''}, m)"
    and k: "map fst (peptides0 m) = [(''AAAAAAAA'', 0)]"
    and p: "peptr m = [(''SIINFEKL'', {''T1''}), (''AAAAAAAA'', {''T2''})]"
    by - (elim exE conjE, rule that)
  have q: "map_of (peptr m) ''AAAAAAAA'' = Some {''T2''}" by (simp add: p)
  have d: "{''T2''} \<inter> {''T1''} = ({} :: transcript set)" by simp
  from load_peptides_nonsource_disjoint [OF l]
  have f: "source_set (tr_is_source m) = {''T1''}"
    and i: "remove_source_peptides {''T1''} m = Inr m"
    by (rule conjunct2 [THEN conjunct1], rule conjunct2 [THEN conjunct2])
  from l k q d f i show ?thesis by (intro exI [of _ m] conjI)
qed

subsection \<open>Evaluating the edges and the bins\<close>

lemma edges_eval:
  "edges = [NegInf, Finite (-10), Finite (-9), Finite (-8), Finite (-7), Finite (-6),
            Finite (-5), Finite (-4), Finite (-3), Finite (-2), Finite (-1), Finite 0,
            Finite 1, Finite 2, Finite 3, Finite 4, Finite 5, Finite 6, Finite 7, Finite 8,
            Finite 9, PosInf]"
  by (simp add: edges_def start_def end_edge_def upto.simps)


lemma bins_eval:
  "bins = [(NegInf, Finite (-10)), (Finite (-10), Finite (-9)), (Finite (-9), Finite (-8)),
           (Finite (-8), Finite (-7)), (Finite (-7), Finite (-6)), (Finite (-6), Finite (-5)),
           (Finite (-5), Finite (-4)), (Finite (-4), Finite (-3)), (Finite (-3), Finite (-2)),
           (Finite (-2), Finite (-1)), (Finite (-1), Finite 0), (Finite 0, Finite 1),
           (Finite 1, Finite 2), (Finite 2, Finite 3), (Finite 3, Finite 4),
           (Finite 4, Finite 5), (Finite 5, Finite 6), (Finite 6, Finite 7),
           (Finite 7, Finite 8), (Finite 8, Finite 9), (Finite 9, PosInf)]"
  by (simp add: bins_def edges_eval upt_rec)

lemma numtoix_eval:
  "numtoix = [(-10, 0), (-9, 1), (-8, 2), (-7, 3), (-6, 4), (-5, 5), (-4, 6), (-3, 7), (-2, 8),
              (-1, 9), (0, 10), (1, 11), (2, 12), (3, 13), (4, 14), (5, 15), (6, 16), (7, 17),
              (8, 18), (9, 19), (10, 20)]"
  by (simp add: numtoix_def start_def end_edge_def upto.simps upt_rec)


lemma np_lt_trans: "np_lt s p \<Longrightarrow> np_lt p q \<Longrightarrow> np_lt s q"
  by (cases s; cases p; cases q) auto

lemma np_ge_iff: "s \<noteq> NaN \<Longrightarrow> p \<noteq> NaN \<Longrightarrow> np_ge s p \<longleftrightarrow> \<not> np_lt s p"
  by (cases s; cases p) auto

lemma edges_sorted: "sorted_wrt np_lt edges"
  by (simp add: edges_eval)

lemma edges_no_nan: "NaN \<notin> set edges"
  by (simp add: edges_eval)

lemma bins_zip: "bins = zip edges (tl edges)"
  by (simp add: bins_eval edges_eval)

lemma count_crossings:
  "sorted_wrt (\<lambda>p q. f p \<longrightarrow> f q) l \<Longrightarrow>
     length (filter (\<lambda>(p, q). \<not> f p \<and> f q) (zip l (tl l)))
       = (if l \<noteq> [] \<and> \<not> f (hd l) \<and> f (last l) then 1 else 0)"
proof (induction l)
  case Nil
  then show ?case by simp
next
  case (Cons x l)
  show ?case
  proof (cases l)
    case Nil
    then show ?thesis by simp
  next
    case (Cons y l')
    from Cons.prems have s: "sorted_wrt (\<lambda>p q. f p \<longrightarrow> f q) l"
      and a: "\<forall>z \<in> set l. f x \<longrightarrow> f z" by simp_all
    from s Cons have b: "\<forall>z \<in> set l'. f y \<longrightarrow> f z" by simp
    have la: "last l \<in> set l" using Cons by simp
    have ya: "y \<in> set l" using Cons by simp
    have fl: "f y \<longrightarrow> f (last l)"
    proof (cases "l' = []")
      case True
      with Cons show ?thesis by simp
    next
      case False
      then have "last l' \<in> set l'" by simp
      with b False Cons show ?thesis by simp
    qed
    from Cons.IH [OF s] Cons
    have ih: "length (filter (\<lambda>(p, q). \<not> f p \<and> f q) (zip l (tl l)))
                = (if \<not> f y \<and> f (last l) then 1 else 0)" by simp
    have z: "zip (x # l) (tl (x # l)) = (x, y) # zip l (tl l)" using Cons by simp
    have lx: "last (x # l) = last l" using Cons by simp
    from a ya have xy: "f x \<longrightarrow> f y" by blast
    from a la have xl: "f x \<longrightarrow> f (last l)" by blast
    show ?thesis
      unfolding z lx using ih xy xl fl by auto
  qed
qed

lemma one_bin:
  assumes "s \<noteq> NaN" "s \<noteq> PosInf"
  shows "length (filter (in_bin s) bins) = 1"
proof -
  have m: "sorted_wrt (\<lambda>p q. np_lt s p \<longrightarrow> np_lt s q) edges"
    by (rule sorted_wrt_mono_rel [OF _ edges_sorted]) (blast intro: np_lt_trans)
  have e: "filter (in_bin s) (zip edges (tl edges))
             = filter (\<lambda>(p, q). \<not> np_lt s p \<and> np_lt s q) (zip edges (tl edges))"
  proof (rule filter_cong [OF refl])
    fix b assume b: "b \<in> set (zip edges (tl edges))"
    obtain p q where pq: "b = (p, q)" by (cases b)
    with b have "p \<in> set edges" by (auto dest: set_zip_leftD)
    with edges_no_nan have "p \<noteq> NaN" by auto
    with assms(1) pq show "in_bin s b = (case b of (p, q) \<Rightarrow> \<not> np_lt s p \<and> np_lt s q)"
      by (simp add: in_bin_def np_ge_iff)
  qed
  have h: "hd edges = NegInf" "last edges = PosInf" "edges \<noteq> []" by (simp_all add: edges_eval)
  have n: "\<not> np_lt s NegInf" by (cases s) simp_all
  have p: "np_lt s PosInf" using assms by (cases s) simp_all
  from count_crossings [OF m] show ?thesis
    unfolding bins_zip e h(1,2) using n p h(3) by simp
qed

lemma emap_Inr: "(\<And>x. x \<in> set xs \<Longrightarrow> f x = Inr (g x)) \<Longrightarrow> emap f xs = Inr (map g xs)"
  by (induction xs) simp_all

lemma sum_list_divide: "sum_list (map (\<lambda>b. f b / n) bs) = sum_list (map f bs) / (n::real)"
  by (induction bs) (simp_all add: add_divide_distrib)

lemma sum_indicator:
  "sum_list (map (\<lambda>b. if P b then 1 else 0) bs) = real (length (filter P bs))"
  by (induction bs) simp_all

lemma count_interchange:
  "sum_list (map (\<lambda>b. real (length (filter (\<lambda>s. P s b) ss))) bs)
     = sum_list (map (\<lambda>s. real (length (filter (P s) bs))) ss)"
proof (induction ss)
  case Nil
  then show ?case by simp
next
  case (Cons s ss)
  have "sum_list (map (\<lambda>b. real (length (filter (\<lambda>s. P s b) (s # ss)))) bs)
          = sum_list (map (\<lambda>b. (if P s b then 1 else 0)
                                    + real (length (filter (\<lambda>s. P s b) ss))) bs)"
    by (rule arg_cong [where f = sum_list], rule map_cong [OF refl]) simp
  also have "\<dots> = sum_list (map (\<lambda>b. if P s b then 1 else 0) bs)
                    + sum_list (map (\<lambda>b. real (length (filter (\<lambda>s. P s b) ss))) bs)"
    by (rule sum_list_addf)
  finally show ?case by (simp add: sum_indicator Cons.IH)
qed

lemma weights_Inr:
  assumes "s_exp \<noteq> []"
  shows "weights s_exp = Inr (map (\<lambda>b. real (length (filter (\<lambda>s. in_bin s b) s_exp))
                                         / real (length s_exp)) bins)"
  unfolding weights_def using assms by (intro emap_Inr) simp

lemma weights_sum:
  assumes "s_exp \<noteq> []" and "\<forall>s \<in> set s_exp. s \<noteq> NaN \<and> s \<noteq> PosInf"
  shows "sum_list (map (\<lambda>b. real (length (filter (\<lambda>s. in_bin s b) s_exp))
                               / real (length s_exp)) bins) = 1"
proof -
  have "sum_list (map (\<lambda>b. real (length (filter (\<lambda>s. in_bin s b) s_exp))) bins)
          = sum_list (map (\<lambda>s. real (length (filter (in_bin s) bins))) s_exp)"
    by (rule count_interchange)
  also have "\<dots> = sum_list (map (\<lambda>s. 1) s_exp)"
    by (rule arg_cong [where f = sum_list], rule map_cong [OF refl])
       (simp add: one_bin assms(2))
  also have "\<dots> = real (length s_exp)" by (simp add: sum_list_triv)
  finally have "sum_list (map (\<lambda>b. real (length (filter (\<lambda>s. in_bin s b) s_exp))) bins)
                  = real (length s_exp)" .
  with assms(1) show ?thesis by (simp add: sum_list_divide)
qed


subsection \<open>The bins of the resampling mode\<close>

text \<open>
  C8, as amended. The 22 edges give 21 bins: below \<open>-10\<close>, the unit bins from \<open>k\<close> to
  \<open>k + 1\<close> for the integers \<open>k\<close> from \<open>-10\<close> to \<open>8\<close>, and from \<open>9\<close> on. A bin holds its
  lower edge and not its upper one, so every real number is in exactly one bin; and the
  weights of a positive class that is not empty, with values that are real or \<open>-\<infinity>\<close>, are
  21 fractions of sum 1.
\<close>

theorem resampling_bins_weights:
  "bins = [(NegInf, Finite (-10)), (Finite (-10), Finite (-9)), (Finite (-9), Finite (-8)),
           (Finite (-8), Finite (-7)), (Finite (-7), Finite (-6)), (Finite (-6), Finite (-5)),
           (Finite (-5), Finite (-4)), (Finite (-4), Finite (-3)), (Finite (-3), Finite (-2)),
           (Finite (-2), Finite (-1)), (Finite (-1), Finite 0), (Finite 0, Finite 1),
           (Finite 1, Finite 2), (Finite 2, Finite 3), (Finite 3, Finite 4),
           (Finite 4, Finite 5), (Finite 5, Finite 6), (Finite 6, Finite 7),
           (Finite 7, Finite 8), (Finite 8, Finite 9), (Finite 9, PosInf)]
   \<and> length bins = 21
   \<and> (\<forall>x a b. (in_bin (Finite x) (Finite a, Finite b) \<longleftrightarrow> a \<le> x \<and> x < b)
         \<and> (in_bin (Finite x) (NegInf, Finite b) \<longleftrightarrow> x < b)
         \<and> (in_bin (Finite x) (Finite a, PosInf) \<longleftrightarrow> a \<le> x))
   \<and> (\<forall>x. length (filter (in_bin (Finite x)) bins) = 1)
   \<and> (s_exp \<noteq> [] \<and> (\<forall>s \<in> set s_exp. s \<noteq> NaN \<and> s \<noteq> PosInf) \<longrightarrow>
        (\<exists>ws. weights s_exp = Inr ws \<and> length ws = 21 \<and> sum_list ws = 1))"
proof (intro conjI allI impI)
  show "bins = [(NegInf, Finite (-10)), (Finite (-10), Finite (-9)), (Finite (-9), Finite (-8)),
           (Finite (-8), Finite (-7)), (Finite (-7), Finite (-6)), (Finite (-6), Finite (-5)),
           (Finite (-5), Finite (-4)), (Finite (-4), Finite (-3)), (Finite (-3), Finite (-2)),
           (Finite (-2), Finite (-1)), (Finite (-1), Finite 0), (Finite 0, Finite 1),
           (Finite 1, Finite 2), (Finite 2, Finite 3), (Finite 3, Finite 4),
           (Finite 4, Finite 5), (Finite 5, Finite 6), (Finite 6, Finite 7),
           (Finite 7, Finite 8), (Finite 8, Finite 9), (Finite 9, PosInf)]"
    by (rule bins_eval)
  show "length bins = 21" by (simp add: bins_eval)
  show "in_bin (Finite x) (Finite a, Finite b) \<longleftrightarrow> a \<le> x \<and> x < b" for x a b
    by (simp add: in_bin_def)
  show "in_bin (Finite x) (NegInf, Finite b) \<longleftrightarrow> x < b" for x b
    by (simp add: in_bin_def)
  show "in_bin (Finite x) (Finite a, PosInf) \<longleftrightarrow> a \<le> x" for x a
    by (simp add: in_bin_def)
  show "length (filter (in_bin (Finite x)) bins) = 1" for x
    by (rule one_bin) simp_all
  assume a: "s_exp \<noteq> [] \<and> (\<forall>s \<in> set s_exp. s \<noteq> NaN \<and> s \<noteq> PosInf)"
  then have n: "s_exp \<noteq> []" and f: "\<forall>s \<in> set s_exp. s \<noteq> NaN \<and> s \<noteq> PosInf" by simp_all
  have "length (map (\<lambda>b. real (length (filter (\<lambda>s. in_bin s b) s_exp))
                               / real (length s_exp)) bins) = 21"
    by (simp add: bins_eval)
  with weights_Inr [OF n] weights_sum [OF n f]
  show "\<exists>ws. weights s_exp = Inr ws \<and> length ws = 21 \<and> sum_list ws = 1"
    by (intro exI [of _ "map (\<lambda>b. real (length (filter (\<lambda>s. in_bin s b) s_exp))
                               / real (length s_exp)) bins"] conjI)
qed

theorem resampling_bins_weights_witness:
  "\<exists>ws. weights [Finite (1 / 2), Finite 3, NegInf] = Inr ws \<and> length ws = 21 \<and> sum_list ws = 1"
  using resampling_bins_weights [of "[Finite (1 / 2), Finite 3, NegInf]"] by simp

text \<open>There are not 22 bins, and no bin from 9 to 10: the last bin starts at 9.\<close>

theorem resampling_bins_counterexample:
  "length bins = 21 \<and> length bins \<noteq> 22 \<and> (Finite 9, Finite 10) \<notin> set bins
   \<and> last bins = (Finite 9, PosInf)"
  by (simp add: bins_eval)


subsection \<open>A bin with positives and no negative\<close>

lemma example_class_values:
  "class_values example_training False = Inr ([Finite 15], [Finite 0])"
  by (simp add: class_values_def example_training_def ebind_def getitem_def py_max_def
      rescale_def)

lemma example_weights:
  "weights [Finite 0] = Inr [0, 0, 0, 0, 0, 0, 0, 0, 0, 0, 0, 1, 0, 0, 0, 0, 0, 0, 0, 0, 0]"
  by (simp add: weights_def bins_eval in_bin_def)

lemma example_getbin: "getbin (Finite 15) = Inr (Finite 9, PosInf)"
  by (simp add: getbin_def bin_index_def py_ceil_def ebind_def getitem_def numtoix_eval
      start_def end_edge_def list_get_def bins_eval)

text \<open>
  C5. With one positive value in the bin from 0 to 1 and the only negative value in the
  last bin, the weight of the first bin with positives is not zero: its entry is not in
  \<^verbatim>\<open>ns_norm\<close>, and the lookup of line 276 raises KeyError.
\<close>

theorem resampling_weights_missing_bin:
  "class_values example_training False = Inr ([Finite 15], [Finite 0])
   \<and> weights [Finite 0] = Inr [0, 0, 0, 0, 0, 0, 0, 0, 0, 0, 0, 1, 0, 0, 0, 0, 0, 0, 0, 0, 0]
   \<and> bins ! 11 = (Finite 0, Finite 1)
   \<and> emap getbin [Finite 15] = Inr [(Finite 9, PosInf)]
   \<and> count_values [(Finite 9, PosInf)] = [((Finite 9, PosInf), 1)]
   \<and> new_weights [0, 0, 0, 0, 0, 0, 0, 0, 0, 0, 0, 1, 0, 0, 0, 0, 0, 0, 0, 0, 0]
         [((Finite 9, PosInf), 1)] = Inl KeyError
   \<and> resampling_weights example_training False True = Inl KeyError"
proof -
  have b: "bins ! 11 = (Finite 0, Finite 1)" by (simp add: bins_eval)
  have g: "emap getbin [Finite 15] = Inr [(Finite 9, PosInf)]" by (simp add: example_getbin)
  have c: "count_values [(Finite 9, PosInf)] = [((Finite 9, PosInf), 1)]"
    by (simp add: count_values_def)
  have n: "new_weights [0, 0, 0, 0, 0, 0, 0, 0, 0, 0, 0, 1, 0, 0, 0, 0, 0, 0, 0, 0, 0]
         [((Finite 9, PosInf), 1)] = Inl KeyError"
    by (simp add: new_weights_def bins_eval ebind_def getitem_def)
  have r: "resampling_weights example_training False True = Inl KeyError"
    using n
    by (simp add: resampling_weights_def example_class_values example_weights example_getbin c
        ebind_def)
  from example_class_values example_weights b g c n r show ?thesis by (intro conjI)
qed

end
